theory Spec2Isabelle
  imports Main "HOL-Library.Word"
begin

section \<open>Fogchan: client-side session protocol\<close>

text \<open>
  A shallow embedding of the TypeScript sources of Fogchan: the byte/string codecs and the
  identity functions of the shared crypto library, and the \<open>CryptoUtils\<close> namespace and the
  \<open>Session\<close> class of the SDK (\<open>sdk/src/index.ts\<close>), together with the web client's
  \<open>poll\<close>.

  Conventions of the model.
  \<^item> A \<open>Uint8Array\<close> is a list of 8-bit words.
  \<^item> A JavaScript string is a \<open>string\<close>: one \<open>char\<close> per UTF-16 code unit, so the model
    covers the strings whose code units are below 256. Every string the codecs produce
    or accept is of that kind (\<open>btoa\<close> throws on any other, \<open>atob\<close> returns a binary
    string).
  \<^item> A thrown exception or a rejected promise is the \<open>Inl\<close> branch of a sum type.
  \<^item> Functions of the host platform (WebCrypto, \<open>JSON\<close>, \<open>TextEncoder\<close>, \<open>fetch\<close>,
    the \<open>URL\<close> parser) that have no source in the repository are parameters of the
    functions that call them; random values are explicit arguments. So is the engine's
    limit on the number of arguments of one call, which \<open>String.fromCharCode(...bytes)\<close>
    runs into on a long array.
\<close>

subsection \<open>Bytes, strings and errors\<close>

type_synonym byte = "8 word"

datatype js_error =
    InvalidCharacterError   \<comment> \<open>\<open>atob\<close> on malformed input\<close>
  | DataError               \<comment> \<open>\<open>importKey\<close> on malformed key data\<close>
  | OperationError          \<comment> \<open>a WebCrypto operation that fails, e.g. a bad GCM tag\<close>
  | SyntaxError             \<comment> \<open>\<open>JSON.parse\<close>, \<open>response.json()\<close>\<close>
  | TypeError               \<comment> \<open>\<open>fetch\<close> network failure, \<open>new URL\<close> on an invalid URL\<close>
  | AbortError              \<comment> \<open>the request timeout fired\<close>
  | RangeError              \<comment> \<open>a call with more arguments than the engine accepts\<close>
  | ErrorMsg string         \<comment> \<open>\<open>throw new Error(msg)\<close>\<close>

definition byte_of_char :: "char \<Rightarrow> byte" where
  \<comment> \<open>\<open>c.charCodeAt(0)\<close> stored into a \<open>Uint8Array\<close>\<close>
  "byte_of_char c = of_nat (of_char c)"

definition char_of_byte :: "byte \<Rightarrow> char" where
  "char_of_byte b = char_of (unat b)"

definition String_fromCharCode :: "nat \<Rightarrow> byte list \<Rightarrow> js_error + string" where
  \<comment> \<open>\<open>String.fromCharCode(...bytes)\<close>: the spread passes one argument per byte, and the
      call throws a \<open>RangeError\<close> when there are more than the engine accepts
      (\<open>max_args\<close>)\<close>
  "String_fromCharCode max_args bytes =
     (if length bytes > max_args then Inl RangeError else Inr (map char_of_byte bytes))"

definition substring :: "string \<Rightarrow> nat \<Rightarrow> nat \<Rightarrow> string" where
  \<comment> \<open>\<open>s.substring(i, j)\<close> for \<open>i \<le> j\<close>; indices beyond the end are clamped\<close>
  "substring s i j = take (j - i) (drop i s)"

definition padStart :: "nat \<Rightarrow> char \<Rightarrow> string \<Rightarrow> string" where
  "padStart n c s = replicate (n - length s) c @ s"

definition replace_char :: "char \<Rightarrow> char \<Rightarrow> string \<Rightarrow> string" where
  \<comment> \<open>\<open>s.replace(/a/g, 'b')\<close> for single characters\<close>
  "replace_char a b s = map (\<lambda>c. if c = a then b else c) s"

definition remove_char :: "char \<Rightarrow> string \<Rightarrow> string" where
  \<comment> \<open>\<open>s.replace(/a/g, '')\<close>\<close>
  "remove_char a s = filter (\<lambda>c. c \<noteq> a) s"

fun index_of :: "'a \<Rightarrow> 'a list \<Rightarrow> nat option" where
  "index_of x [] = None"
| "index_of x (y # ys) =
     (if x = y then Some 0 else (case index_of x ys of None \<Rightarrow> None | Some n \<Rightarrow> Some (Suc n)))"

subsection \<open>Hex codec\<close>

definition hex_digits :: string where
  "hex_digits = ''0123456789abcdef''"

definition toString16 :: "byte \<Rightarrow> string" where
  \<comment> \<open>\<open>b.toString(16)\<close> for a byte: one or two lowercase digits, no leading zero\<close>
  "toString16 b =
     (if unat b < 16 then [hex_digits ! unat b]
      else [hex_digits ! (unat b div 16), hex_digits ! (unat b mod 16)])"

definition bytesToHex :: "byte list \<Rightarrow> string" where
  "bytesToHex bytes = concat (map (\<lambda>b. padStart 2 CHR ''0'' (toString16 b)) bytes)"

definition is_js_whitespace :: "char \<Rightarrow> bool" where
  \<comment> \<open>\<open>StrWhiteSpaceChar\<close> among the code units below 256: TAB, LF, VT, FF, CR, SP, NBSP\<close>
  "is_js_whitespace c = (of_char c \<in> {9, 10, 11, 12, 13, 32, 160 :: nat})"

definition hex_digit_value :: "char \<Rightarrow> nat option" where
  \<comment> \<open>the value of a radix-16 digit, upper or lower case\<close>
  "hex_digit_value c =
     (case index_of c hex_digits of
        Some n \<Rightarrow> Some n
      | None \<Rightarrow> (case index_of c ''ABCDEF'' of Some n \<Rightarrow> Some (10 + n) | None \<Rightarrow> None))"

definition is_hex_digit :: "char \<Rightarrow> bool" where
  "is_hex_digit c = (hex_digit_value c \<noteq> None)"

definition digit_val :: "char \<Rightarrow> nat" where
  "digit_val c = (case hex_digit_value c of Some n \<Rightarrow> n | None \<Rightarrow> 0)"

definition parseInt16 :: "string \<Rightarrow> int option" where
  \<comment> \<open>\<open>parseInt(s, 16)\<close>; \<open>None\<close> is \<open>NaN\<close>. Leading white space is skipped, then a sign,
      then a \<open>0x\<close> prefix; the longest prefix of digits is read and the rest ignored.\<close>
  "parseInt16 s =
     (let s1 = dropWhile is_js_whitespace s;
          neg = (take 1 s1 = ''-'');
          s2 = (if take 1 s1 = ''-'' \<or> take 1 s1 = ''+'' then drop 1 s1 else s1);
          s3 = (if take 2 s2 = ''0x'' \<or> take 2 s2 = ''0X'' then drop 2 s2 else s2);
          z = takeWhile is_hex_digit s3;
          n = int (foldl (\<lambda>acc c. acc * 16 + digit_val c) 0 z)
      in if z = [] then None else Some (if neg then - n else n))"

definition ToUint8 :: "int option \<Rightarrow> byte" where
  \<comment> \<open>the conversion applied by a store into a \<open>Uint8Array\<close>: \<open>NaN\<close> becomes 0, an integer is
      taken modulo 256\<close>
  "ToUint8 r = (case r of None \<Rightarrow> 0 | Some n \<Rightarrow> word_of_int n)"

definition typed_array_set :: "byte list \<Rightarrow> nat \<Rightarrow> byte \<Rightarrow> byte list" where
  \<comment> \<open>\<open>bytes[i] = v\<close> on a typed array: a store beyond the length is ignored\<close>
  "typed_array_set a i v = (if i < length a then a[i := v] else a)"

function hexToBytes_loop :: "string \<Rightarrow> nat \<Rightarrow> byte list \<Rightarrow> byte list" where
  "hexToBytes_loop hex i bytes =
     (if i < length hex
      then hexToBytes_loop hex (i + 2)
             (typed_array_set bytes (i div 2) (ToUint8 (parseInt16 (substring hex i (i + 2)))))
      else bytes)"
  by pat_completeness auto
termination
  by (relation "measure (\<lambda>(hex, i, bytes). length hex - i)") auto

definition hexToBytes :: "string \<Rightarrow> byte list" where
  \<comment> \<open>\<open>new Uint8Array(hex.length / 2)\<close> truncates a fractional length and is zero-filled\<close>
  "hexToBytes hex = hexToBytes_loop hex 0 (replicate (length hex div 2) 0)"

subsection \<open>Base64 codecs\<close>

definition b64_alphabet :: string where
  "b64_alphabet = ''ABCDEFGHIJKLMNOPQRSTUVWXYZabcdefghijklmnopqrstuvwxyz0123456789+/''"

definition b64_char :: "nat \<Rightarrow> char" where
  "b64_char n = b64_alphabet ! n"

fun btoa_groups :: "nat list \<Rightarrow> string" where
  "btoa_groups (a # b # c # r) =
     [b64_char (a div 4), b64_char ((a mod 4) * 16 + b div 16),
      b64_char ((b mod 16) * 4 + c div 64), b64_char (c mod 64)] @ btoa_groups r"
| "btoa_groups [a, b] =
     [b64_char (a div 4), b64_char ((a mod 4) * 16 + b div 16),
      b64_char ((b mod 16) * 4), CHR ''='']"
| "btoa_groups [a] = [b64_char (a div 4), b64_char ((a mod 4) * 16), CHR ''='', CHR ''='']"
| "btoa_groups [] = []"

definition btoa :: "string \<Rightarrow> string" where
  \<comment> \<open>\<open>btoa\<close> on a binary string: base64 with padding. It throws on a code unit above 255,
      which the 8-bit \<open>char\<close> excludes.\<close>
  "btoa s = btoa_groups (map of_char s)"

definition is_ascii_whitespace :: "char \<Rightarrow> bool" where
  \<comment> \<open>TAB, LF, FF, CR, SPACE\<close>
  "is_ascii_whitespace c = (of_char c \<in> {9, 10, 12, 13, 32 :: nat})"

definition strip_padding :: "string \<Rightarrow> string" where
  \<comment> \<open>forgiving-base64 decode, step 2: when the length is a multiple of 4, one or two
      trailing \<open>=\<close> are removed\<close>
  "strip_padding d =
     (if length d mod 4 = 0
      then (if 2 \<le> length d \<and> drop (length d - 2) d = ''=='' then take (length d - 2) d
            else if 1 \<le> length d \<and> drop (length d - 1) d = ''='' then take (length d - 1) d
            else d)
      else d)"

definition sextet :: "char \<Rightarrow> nat" where
  "sextet c = (case index_of c b64_alphabet of Some n \<Rightarrow> n | None \<Rightarrow> 0)"

fun atob_groups :: "nat list \<Rightarrow> nat list" where
  "atob_groups (a # b # c # d # r) =
     [a * 4 + b div 16, (b mod 16) * 16 + c div 4, (c mod 4) * 64 + d] @ atob_groups r"
| "atob_groups [a, b, c] = [a * 4 + b div 16, (b mod 16) * 16 + c div 4]"
| "atob_groups [a, b] = [a * 4 + b div 16]"
| "atob_groups [a] = []"
| "atob_groups [] = []"

definition atob :: "string \<Rightarrow> js_error + string" where
  \<comment> \<open>\<open>atob\<close>: the forgiving-base64 decode of the HTML standard\<close>
  "atob data =
     (let d = strip_padding (filter (\<lambda>c. \<not> is_ascii_whitespace c) data)
      in if length d mod 4 = 1 then Inl InvalidCharacterError
         else if list_ex (\<lambda>c. index_of c b64_alphabet = None) d then Inl InvalidCharacterError
         else Inr (map char_of (atob_groups (map sextet d))))"

text \<open>
  The shared library and the web client call \<open>btoa\<close> and \<open>atob\<close>. The SDK does the same
  wherever they exist and falls back to \<open>Buffer\<close> elsewhere; the model follows the
  \<open>btoa\<close>/\<open>atob\<close> branch.
\<close>

definition bytesToBase64 :: "nat \<Rightarrow> byte list \<Rightarrow> js_error + string" where
  "bytesToBase64 max_args bytes =
     (case String_fromCharCode max_args bytes of
        Inl e \<Rightarrow> Inl e
      | Inr binary \<Rightarrow> Inr (btoa binary))"

definition base64ToBytes :: "string \<Rightarrow> js_error + byte list" where
  \<comment> \<open>\<open>Uint8Array.from(atob(str), c => c.charCodeAt(0))\<close>\<close>
  "base64ToBytes str = (case atob str of Inl e \<Rightarrow> Inl e | Inr s \<Rightarrow> Inr (map byte_of_char s))"

definition bytesToBase64Url :: "nat \<Rightarrow> byte list \<Rightarrow> js_error + string" where
  "bytesToBase64Url max_args bytes =
     (case String_fromCharCode max_args bytes of
        Inl e \<Rightarrow> Inl e
      | Inr binary \<Rightarrow>
          (let base64 = btoa binary
           in Inr (remove_char CHR ''=''
                    (replace_char CHR ''/'' CHR ''_'' (replace_char CHR ''+'' CHR ''-'' base64)))))"

definition base64UrlToBytes :: "string \<Rightarrow> js_error + byte list" where
  "base64UrlToBytes str =
     (let base64 = replace_char CHR ''_'' CHR ''/'' (replace_char CHR ''-'' CHR ''+'' str);
          padded = base64 @ replicate ((4 - length base64 mod 4) mod 4) CHR ''=''
      in case atob padded of Inl e \<Rightarrow> Inl e | Inr s \<Rightarrow> Inr (map byte_of_char s))"

subsection \<open>The host platform\<close>

datatype msg_type = Text | System

record payload =
  p_sender :: string
  p_content :: string
  p_type :: msg_type
  p_publicKey :: "string option"   \<comment> \<open>absent in an unsigned payload\<close>
  p_signature :: "string option"

text \<open>
  The platform functions the sources call. Each WebCrypto operation returns a promise, so
  each may reject. \<open>'k\<close>, \<open>'pk\<close> and \<open>'sk\<close> are the platform's \<open>CryptoKey\<close> objects for
  AES-GCM, ECDSA verification and ECDSA signing. ECDSA signing draws a fresh nonce; it is
  the second argument of \<open>ecdsa_sign\<close>.
\<close>

record ('k, 'pk, 'sk) platform =
  aes_importKey :: "byte list \<Rightarrow> js_error + 'k"
  aes_encrypt :: "'k \<Rightarrow> byte list \<Rightarrow> byte list \<Rightarrow> js_error + byte list"
  aes_decrypt :: "'k \<Rightarrow> byte list \<Rightarrow> byte list \<Rightarrow> js_error + byte list"
  ecdsa_importPublicKey :: "byte list \<Rightarrow> js_error + 'pk"
  ecdsa_importPrivateKey :: "byte list \<Rightarrow> js_error + 'sk"
  ecdsa_sign :: "'sk \<Rightarrow> byte list \<Rightarrow> byte list \<Rightarrow> js_error + byte list"
  ecdsa_verify :: "'pk \<Rightarrow> byte list \<Rightarrow> byte list \<Rightarrow> js_error + bool"
  sha256 :: "byte list \<Rightarrow> byte list"
  json_stringify :: "payload \<Rightarrow> string"
  json_parse :: "string \<Rightarrow> js_error + payload"
  text_encode :: "string \<Rightarrow> byte list"
  text_decode :: "byte list \<Rightarrow> string"
  max_arguments :: nat   \<comment> \<open>the most arguments the engine accepts in one call\<close>

subsection \<open>Payload encryption (\<open>CryptoUtils.encrypt\<close>, \<open>CryptoUtils.decrypt\<close>)\<close>

record encrypt_result =
  er_ciphertext :: string
  er_iv :: string

definition importKey :: "('k, 'pk, 'sk) platform \<Rightarrow> string \<Rightarrow> js_error + 'k" where
  "importKey pf secret =
     (case base64UrlToBytes secret of
        Inl e \<Rightarrow> Inl e
      | Inr keyBytes \<Rightarrow> aes_importKey pf keyBytes)"

definition encrypt ::
  "('k, 'pk, 'sk) platform \<Rightarrow> payload \<Rightarrow> string \<Rightarrow> byte list \<Rightarrow> js_error + encrypt_result" where
  \<comment> \<open>the last argument is the 12 random bytes drawn by \<open>getRandomValues\<close>\<close>
  "encrypt pf pl secret nonce =
     (case importKey pf secret of
        Inl e \<Rightarrow> Inl e
      | Inr key \<Rightarrow>
          (case aes_encrypt pf key nonce (text_encode pf (json_stringify pf pl)) of
             Inl e \<Rightarrow> Inl e
           | Inr encrypted \<Rightarrow>
               (case bytesToBase64 (max_arguments pf) encrypted of
                  Inl e \<Rightarrow> Inl e
                | Inr ciphertext \<Rightarrow>
                    (case bytesToBase64 (max_arguments pf) nonce of
                       Inl e \<Rightarrow> Inl e
                     | Inr ivs \<Rightarrow> Inr \<lparr>er_ciphertext = ciphertext, er_iv = ivs\<rparr>))))"

definition decrypt ::
  "('k, 'pk, 'sk) platform \<Rightarrow> string \<Rightarrow> string \<Rightarrow> string \<Rightarrow> js_error + payload" where
  "decrypt pf ciphertext ivs secret =
     (case importKey pf secret of
        Inl e \<Rightarrow> Inl e
      | Inr key \<Rightarrow>
          (case base64ToBytes ivs of
             Inl e \<Rightarrow> Inl e
           | Inr ivBytes \<Rightarrow>
               (case base64ToBytes ciphertext of
                  Inl e \<Rightarrow> Inl e
                | Inr ciphertextBytes \<Rightarrow>
                    (case aes_decrypt pf key ivBytes ciphertextBytes of
                       Inl e \<Rightarrow> Inl e
                     | Inr decrypted \<Rightarrow> json_parse pf (text_decode pf decrypted)))))"

subsection \<open>Identity: signing and verification\<close>

record plaintext_message =
  m_id :: string
  m_sender :: string
  m_content :: string
  m_timestamp :: int
  m_type :: msg_type
  m_publicKey :: "string option"
  m_fingerprint :: "string option"
  m_verified :: bool

definition importPublicKey :: "('k, 'pk, 'sk) platform \<Rightarrow> string \<Rightarrow> js_error + 'pk" where
  "importPublicKey pf publicKeyBase64 =
     (case base64ToBytes publicKeyBase64 of
        Inl e \<Rightarrow> Inl e
      | Inr keyBytes \<Rightarrow> ecdsa_importPublicKey pf keyBytes)"

definition importPrivateKey :: "('k, 'pk, 'sk) platform \<Rightarrow> string \<Rightarrow> js_error + 'sk" where
  "importPrivateKey pf privateKeyBase64 =
     (case base64ToBytes privateKeyBase64 of
        Inl e \<Rightarrow> Inl e
      | Inr keyBytes \<Rightarrow> ecdsa_importPrivateKey pf keyBytes)"

definition signMessage ::
  "('k, 'pk, 'sk) platform \<Rightarrow> string \<Rightarrow> string \<Rightarrow> byte list \<Rightarrow> js_error + string" where
  "signMessage pf text privateKeyBase64 rnd =
     (case importPrivateKey pf privateKeyBase64 of
        Inl e \<Rightarrow> Inl e
      | Inr privateKey \<Rightarrow>
          (case ecdsa_sign pf privateKey rnd (text_encode pf text) of
             Inl e \<Rightarrow> Inl e
           | Inr sig \<Rightarrow> bytesToBase64 (max_arguments pf) sig))"

definition verifySignature ::
  "('k, 'pk, 'sk) platform \<Rightarrow> string \<Rightarrow> string \<Rightarrow> string \<Rightarrow> js_error + bool" where
  \<comment> \<open>The \<open>try\<close> block awaits the key import and decodes the signature, so their failures
      are caught and give \<open>false\<close>. The promise of \<open>crypto.subtle.verify\<close> is returned
      without \<open>await\<close>: its rejection is not caught.\<close>
  "verifySignature pf text signatureBase64 publicKeyBase64 =
     (case importPublicKey pf publicKeyBase64 of
        Inl e \<Rightarrow> Inr False
      | Inr pk \<Rightarrow>
          (case base64ToBytes signatureBase64 of
             Inl e \<Rightarrow> Inr False
           | Inr sig \<Rightarrow> ecdsa_verify pf pk sig (text_encode pf text)))"

definition getPublicKeyFingerprint ::
  "('k, 'pk, 'sk) platform \<Rightarrow> string \<Rightarrow> js_error + string" where
  "getPublicKeyFingerprint pf publicKeyBase64 =
     (case base64ToBytes publicKeyBase64 of
        Inl e \<Rightarrow> Inl e
      | Inr keyBytes \<Rightarrow> Inr (take 4 (bytesToHex (sha256 pf keyBytes))))"

definition createSignedPayload ::
  "('k, 'pk, 'sk) platform \<Rightarrow> string \<Rightarrow> string \<Rightarrow> msg_type \<Rightarrow> string \<Rightarrow> string \<Rightarrow> byte list
     \<Rightarrow> js_error + payload" where
  "createSignedPayload pf sender content ty privateKeyBase64 publicKeyBase64 rnd =
     (case signMessage pf (sender @ '':'' @ content) privateKeyBase64 rnd of
        Inl e \<Rightarrow> Inl e
      | Inr sig \<Rightarrow>
          Inr \<lparr>p_sender = sender, p_content = content, p_type = ty,
               p_publicKey = Some publicKeyBase64, p_signature = Some sig\<rparr>)"

definition truthy :: "string option \<Rightarrow> bool" where
  \<comment> \<open>an optional string in a condition: \<open>undefined\<close> and the empty string are falsy\<close>
  "truthy v = (case v of None \<Rightarrow> False | Some str \<Rightarrow> str \<noteq> [])"

definition opt_string :: "string option \<Rightarrow> string" where
  "opt_string v = (case v of None \<Rightarrow> [] | Some str \<Rightarrow> str)"

definition verifyPayload ::
  "('k, 'pk, 'sk) platform \<Rightarrow> payload \<Rightarrow> string \<Rightarrow> int \<Rightarrow> js_error + plaintext_message" where
  "verifyPayload pf pl messageId timestamp =
     (if truthy (p_publicKey pl) \<and> truthy (p_signature pl)
      then
        (case verifySignature pf (p_sender pl @ '':'' @ p_content pl)
                (opt_string (p_signature pl)) (opt_string (p_publicKey pl)) of
           Inl e \<Rightarrow> Inl e
         | Inr verified \<Rightarrow>
             (case getPublicKeyFingerprint pf (opt_string (p_publicKey pl)) of
                Inl e \<Rightarrow> Inl e
              | Inr fingerprint \<Rightarrow>
                  Inr \<lparr>m_id = messageId, m_sender = p_sender pl, m_content = p_content pl,
                       m_timestamp = timestamp, m_type = p_type pl,
                       m_publicKey = p_publicKey pl, m_fingerprint = Some fingerprint,
                       m_verified = verified\<rparr>))
      else
        Inr \<lparr>m_id = messageId, m_sender = p_sender pl, m_content = p_content pl,
             m_timestamp = timestamp, m_type = p_type pl,
             m_publicKey = p_publicKey pl, m_fingerprint = None, m_verified = False\<rparr>)"

subsection \<open>The storage service as seen by a client\<close>

record enc_message =
  em_id :: string
  em_ciphertext :: string
  em_iv :: string
  em_timestamp :: int

datatype json_body =
    MessagesBody "enc_message list" nat   \<comment> \<open>\<open>{messages, messageCount}\<close>\<close>
  | SentBody string int                   \<comment> \<open>\<open>{id, timestamp}\<close>\<close>
  | ErrorBody "string option"             \<comment> \<open>\<open>{error}\<close>\<close>
  | NullBody                              \<comment> \<open>\<open>null\<close>\<close>
  | OtherBody                             \<comment> \<open>any other JSON value\<close>

record response =
  r_ok :: bool
  r_json :: "js_error + json_body"   \<comment> \<open>the outcome of \<open>response.json()\<close>\<close>

datatype request =
    GET_messages string int            \<comment> \<open>\<open>GET /api/rooms/{roomId}/messages?after={after}\<close>\<close>
  | POST_message string encrypt_result \<comment> \<open>\<open>POST /api/rooms/{roomId}/messages\<close> with \<open>{ciphertext, iv}\<close>\<close>

type_synonym fetch = "request \<Rightarrow> js_error + response"

definition response_error :: "response \<Rightarrow> string \<Rightarrow> js_error" where
  \<comment> \<open>\<open>const error = await response.json(); throw new Error(error.error || fallback)\<close>:
      what is thrown is the failure of \<open>json()\<close>, the \<open>TypeError\<close> of reading \<open>error\<close> from
      \<open>null\<close>, or the new \<open>Error\<close>\<close>
  "response_error resp fallback =
     (case r_json resp of
        Inl e \<Rightarrow> e
      | Inr (ErrorBody m) \<Rightarrow> ErrorMsg (if truthy m then opt_string m else fallback)
      | Inr NullBody \<Rightarrow> TypeError
      | Inr _ \<Rightarrow> ErrorMsg fallback)"

subsection \<open>The SDK session (\<open>class Session\<close>)\<close>

record sdk_message =
  sm_id :: string
  sm_sender :: string
  sm_content :: string
  sm_timestamp :: int
  sm_type :: msg_type

datatype event =
    MessageEvent sdk_message            \<comment> \<open>\<open>emit('message', message)\<close>\<close>
  | DecryptErrorEvent string js_error   \<comment> \<open>\<open>emit('decrypt_error', msg.id, e)\<close>\<close>
  | ErrorEvent js_error                 \<comment> \<open>\<open>emit('error', e)\<close>\<close>

record session =
  s_roomId :: string
  s_secretKey :: string
  s_serverUrl :: string
  s_name :: string
  s_pollInterval :: nat
  lastTimestamp :: int
  intervalId :: "nat option"   \<comment> \<open>the timer that schedules the polls\<close>
  seenIds :: "string set"
  s_timeout :: nat
  has_error_listener :: bool   \<comment> \<open>whether a listener for \<open>error\<close> is registered on the session\<close>

text \<open>
  \<open>Session\<close> extends Node's \<open>EventEmitter\<close>. An emitted event is appended to a trace, which
  is what the registered listeners receive; the listeners themselves are taken not to
  throw. \<open>emit('error', e)\<close> is special: when no listener for \<open>error\<close> is registered it
  throws \<open>e\<close>. The constructor registers no listener. A method returns the outcome of its
  promise together with the session state it leaves.
\<close>

definition Session_new ::
  "string \<Rightarrow> string \<Rightarrow> string \<Rightarrow> string \<Rightarrow> nat \<Rightarrow> nat \<Rightarrow> session" where
  "Session_new serverUrl roomId secret name pollInterval timeout =
     \<lparr>s_roomId = roomId, s_secretKey = secret, s_serverUrl = serverUrl, s_name = name,
      s_pollInterval = pollInterval, lastTimestamp = 0, intervalId = None, seenIds = {},
      s_timeout = timeout, has_error_listener = False\<rparr>"

definition is_message_event :: "event \<Rightarrow> bool" where
  "is_message_event ev = (case ev of MessageEvent m \<Rightarrow> True | _ \<Rightarrow> False)"

definition poll_message ::
  "('k, 'pk, 'sk) platform \<Rightarrow> session \<times> event list \<Rightarrow> enc_message \<Rightarrow> session \<times> event list" where
  \<comment> \<open>the body of the \<open>for\<close> loop of \<open>poll\<close>\<close>
  "poll_message pf acc msg =
     (let s = fst acc; evs = snd acc
      in if em_id msg \<in> seenIds s then (s, evs)
         else
           (let ev = (case decrypt pf (em_ciphertext msg) (em_iv msg) (s_secretKey s) of
                        Inr pl \<Rightarrow>
                          MessageEvent \<lparr>sm_id = em_id msg, sm_sender = p_sender pl,
                            sm_content = p_content pl, sm_timestamp = em_timestamp msg,
                            sm_type = p_type pl\<rparr>
                      | Inl e \<Rightarrow> DecryptErrorEvent (em_id msg) e);
                s1 = s\<lparr>seenIds := insert (em_id msg) (seenIds s)\<rparr>;
                s2 = (if em_timestamp msg > lastTimestamp s1
                      then s1\<lparr>lastTimestamp := em_timestamp msg\<rparr> else s1)
            in (s2, evs @ [ev])))"

definition poll_messages ::
  "('k, 'pk, 'sk) platform \<Rightarrow> session \<Rightarrow> enc_message list \<Rightarrow> session \<times> event list" where
  "poll_messages pf s msgs = foldl (poll_message pf) (s, []) msgs"

definition Session_poll_try ::
  "('k, 'pk, 'sk) platform \<Rightarrow> session \<Rightarrow> fetch \<Rightarrow> js_error + session \<times> event list" where
  \<comment> \<open>the \<open>try\<close> block of \<open>poll\<close>; whatever it throws is thrown before the loop starts\<close>
  "Session_poll_try pf s net =
     (case net (GET_messages (s_roomId s) (lastTimestamp s)) of
        Inl e \<Rightarrow> Inl e
      | Inr resp \<Rightarrow>
          if \<not> r_ok resp then Inr (s, [])
          else
            (case r_json resp of
               Inl e \<Rightarrow> Inl e
             | Inr (MessagesBody msgs n) \<Rightarrow> Inr (poll_messages pf s msgs)
             | Inr _ \<Rightarrow> Inl TypeError))"

definition Session_poll ::
  "('k, 'pk, 'sk) platform \<Rightarrow> session \<Rightarrow> fetch \<Rightarrow> (js_error + unit) \<times> session \<times> event list" where
  \<comment> \<open>the \<open>catch\<close> block calls \<open>this.emit('error', e)\<close>, which throws \<open>e\<close> out of \<open>poll\<close> when
      no listener for \<open>error\<close> is registered\<close>
  "Session_poll pf s net =
     (case Session_poll_try pf s net of
        Inl e \<Rightarrow>
          if has_error_listener s then (Inr (), s, [ErrorEvent e])
          else (Inl e, s, [])
      | Inr r \<Rightarrow> (Inr (), fst r, snd r))"

definition Session_send ::
  "('k, 'pk, 'sk) platform \<Rightarrow> session \<Rightarrow> string \<Rightarrow> byte list \<Rightarrow> fetch \<Rightarrow> (js_error + unit) \<times> session" where
  \<comment> \<open>\<open>send\<close> is declared \<open>Promise<void>\<close>: it never reads the body of a successful response\<close>
  "Session_send pf s content nonce net =
     (case encrypt pf \<lparr>p_sender = s_name s, p_content = content, p_type = Text,
                       p_publicKey = None, p_signature = None\<rparr> (s_secretKey s) nonce of
        Inl e \<Rightarrow> (Inl e, s)
      | Inr er \<Rightarrow>
          (case net (POST_message (s_roomId s) er) of
             Inl e \<Rightarrow> (Inl e, s)
           | Inr resp \<Rightarrow>
               if \<not> r_ok resp then (Inl (response_error resp ''Failed to send message''), s)
               else (Inr (), s)))"

subsection \<open>The web client's poll (\<open>chat.ts\<close>, \<open>lib/api.ts\<close>)\<close>

datatype rendered =
    RenderedMessage plaintext_message string   \<comment> \<open>\<open>renderMessage(displayMsg)\<close>\<close>
  | RenderedDecryptError enc_message           \<comment> \<open>\<open>renderDecryptError(msg)\<close>\<close>

record chat_state =
  ch_roomId :: string
  ch_secretKey :: string
  ch_lastTimestamp :: int
  displayedMessages :: "string set"
  messagesContainer :: "rendered list"

definition getMessages :: "fetch \<Rightarrow> string \<Rightarrow> int \<Rightarrow> js_error + json_body" where
  "getMessages net roomId after =
     (case net (GET_messages roomId after) of
        Inl e \<Rightarrow> Inl e
      | Inr resp \<Rightarrow>
          if \<not> r_ok resp then Inl (response_error resp ''Failed to get messages'')
          else r_json resp)"

definition chat_poll_message ::
  "('k, 'pk, 'sk) platform \<Rightarrow> chat_state \<Rightarrow> enc_message \<Rightarrow> chat_state" where
  "chat_poll_message pf st msg =
     (if em_id msg \<in> displayedMessages st then st
      else
        (let item = (case decrypt pf (em_ciphertext msg) (em_iv msg) (ch_secretKey st) of
                       Inl e \<Rightarrow> RenderedDecryptError msg
                     | Inr pl \<Rightarrow>
                         (case verifyPayload pf pl (em_id msg) (em_timestamp msg) of
                            Inl e \<Rightarrow> RenderedDecryptError msg
                          | Inr v \<Rightarrow> RenderedMessage v (em_ciphertext msg)));
             st1 = st\<lparr>messagesContainer := messagesContainer st @ [item],
                      displayedMessages := insert (em_id msg) (displayedMessages st)\<rparr>
         in if em_timestamp msg > ch_lastTimestamp st1
            then st1\<lparr>ch_lastTimestamp := em_timestamp msg\<rparr> else st1))"

definition chat_poll :: "('k, 'pk, 'sk) platform \<Rightarrow> chat_state \<Rightarrow> fetch \<Rightarrow> chat_state" where
  "chat_poll pf st net =
     (if ch_roomId st = [] \<or> ch_secretKey st = [] then st
      else
        (case getMessages net (ch_roomId st) (ch_lastTimestamp st) of
           Inl e \<Rightarrow> st
         | Inr (MessagesBody msgs messageCount) \<Rightarrow>
             if messageCount = 0 \<and> displayedMessages st \<noteq> {}
             then st\<lparr>messagesContainer := [], displayedMessages := {}, ch_lastTimestamp := 0\<rparr>
             else foldl (chat_poll_message pf) st msgs
         | Inr _ \<Rightarrow> st))"

subsection \<open>Room links (\<open>CryptoUtils.buildUrl\<close>, \<open>CryptoUtils.parseUrl\<close>)\<close>

record url =
  u_pathname :: string
  u_hash :: string

record credentials =
  c_roomId :: string
  c_secretKey :: string

definition buildUrl :: "string \<Rightarrow> string \<Rightarrow> string \<Rightarrow> string" where
  "buildUrl baseUrl roomId secret = baseUrl @ ''/#/chat/'' @ roomId @ ''/'' @ secret"

definition is_lower_hex :: "char \<Rightarrow> bool" where
  \<comment> \<open>the character class \<open>[a-f0-9]\<close>\<close>
  "is_lower_hex c = (c \<in> set hex_digits)"

definition is_line_terminator :: "char \<Rightarrow> bool" where
  \<comment> \<open>what \<open>.\<close> does not match: LF and CR among the code units below 256\<close>
  "is_line_terminator c = (of_char c \<in> {10, 13 :: nat})"

definition match_hash :: "string \<Rightarrow> (string \<times> string) option" where
  \<comment> \<open>\<open>hash.match(/^#\/chat\/([a-f0-9]{32})\/(.+)$/)\<close>: the two groups, or no match\<close>
  "match_hash h =
     (let r = drop 7 h
      in if take 7 h = ''#/chat/'' \<and> length (take 32 r) = 32 \<and> list_all is_lower_hex (take 32 r)
            \<and> take 1 (drop 32 r) = ''/'' \<and> drop 33 r \<noteq> []
            \<and> list_all (\<lambda>c. \<not> is_line_terminator c) (drop 33 r)
         then Some (take 32 r, drop 33 r) else None)"

fun match_path :: "string \<Rightarrow> string option" where
  \<comment> \<open>\<open>pathname.match(/\/chat\/([a-f0-9]{32})/)\<close>: the group of the leftmost match\<close>
  "match_path [] = None"
| "match_path (c # cs) =
     (let r = drop 6 (c # cs)
      in if take 6 (c # cs) = ''/chat/'' \<and> length (take 32 r) = 32 \<and> list_all is_lower_hex (take 32 r)
         then Some (take 32 r) else match_path cs)"

definition parseUrl :: "(string \<Rightarrow> js_error + url) \<Rightarrow> string \<Rightarrow> credentials option" where
  \<comment> \<open>the first argument is the platform's \<open>new URL(url)\<close>; \<open>None\<close> is \<open>null\<close>\<close>
  "parseUrl URL_ctor link =
     (case URL_ctor link of
        Inl e \<Rightarrow> None
      | Inr parsed \<Rightarrow>
          (case match_hash (u_hash parsed) of
             Some hashMatch \<Rightarrow> Some \<lparr>c_roomId = fst hashMatch, c_secretKey = snd hashMatch\<rparr>
           | None \<Rightarrow>
               (case match_path (u_pathname parsed) of
                  Some pathMatch \<Rightarrow>
                    if u_hash parsed \<noteq> []
                    then Some \<lparr>c_roomId = pathMatch, c_secretKey = drop 1 (u_hash parsed)\<rparr>
                    else None
                | None \<Rightarrow> None)))"

text \<open>
  The \<open>URL\<close> constructor, following the URL standard's parser without a base URL: leading
  and trailing C0 controls and spaces are stripped, tabs and newlines are removed, the
  input must start with a scheme and a colon (otherwise the parser fails and the
  constructor throws), and the first \<open>#\<close> ends the part the rest of the parser reads and
  starts the fragment, which is percent-encoded with the fragment percent-encode set.
  \<open>hash\<close> is empty for an empty fragment. Parsing what lies between the scheme and the
  fragment (host, path, query) is the parameter \<open>after_scheme\<close>: given the scheme and
  the rest, it fails or gives the \<open>pathname\<close>.
\<close>

definition is_c0_or_space :: "char \<Rightarrow> bool" where
  "is_c0_or_space c = ((of_char c :: nat) \<le> 32)"

definition is_tab_or_newline :: "char \<Rightarrow> bool" where
  "is_tab_or_newline c = (of_char c \<in> {9, 10, 13 :: nat})"

definition in_fragment_encode_set :: "char \<Rightarrow> bool" where
  \<comment> \<open>C0 controls, space, \<open>"\<close>, \<open><\<close>, \<open>>\<close>, backquote, and everything above \<open>~\<close>\<close>
  "in_fragment_encode_set c =
     ((of_char c :: nat) \<le> 32 \<or> (of_char c :: nat) > 126 \<or> of_char c \<in> {34, 60, 62, 96 :: nat})"

definition percent_byte :: "nat \<Rightarrow> string" where
  "percent_byte n = [CHR ''%'', ''0123456789ABCDEF'' ! (n div 16), ''0123456789ABCDEF'' ! (n mod 16)]"

definition utf8_percent_encode :: "char \<Rightarrow> string" where
  "utf8_percent_encode c =
     (let n = of_char c
      in if n < 128 then percent_byte n
         else percent_byte (192 + n div 64) @ percent_byte (128 + n mod 64))"

definition fragment_encode :: "string \<Rightarrow> string" where
  "fragment_encode f =
     concat (map (\<lambda>c. if in_fragment_encode_set c then utf8_percent_encode c else [c]) f)"

definition is_ascii_alpha :: "char \<Rightarrow> bool" where
  "is_ascii_alpha c =
     ((65 \<le> (of_char c :: nat) \<and> (of_char c :: nat) \<le> 90)
      \<or> (97 \<le> (of_char c :: nat) \<and> (of_char c :: nat) \<le> 122))"

definition is_scheme_char :: "char \<Rightarrow> bool" where
  \<comment> \<open>ASCII letters and digits, \<open>+\<close>, \<open>-\<close> and \<open>.\<close>\<close>
  "is_scheme_char c =
     (is_ascii_alpha c \<or> (48 \<le> (of_char c :: nat) \<and> (of_char c :: nat) \<le> 57)
      \<or> of_char c \<in> {43, 45, 46 :: nat})"

definition scheme_of :: "string \<Rightarrow> (string \<times> string) option" where
  \<comment> \<open>scheme start state and scheme state: the scheme and what follows the colon, or
      \<open>None\<close> when the input does not start with a scheme\<close>
  "scheme_of input =
     (if is_ascii_alpha (hd (input @ ''/'')) \<and> take 1 (dropWhile is_scheme_char input) = '':''
      then Some (takeWhile is_scheme_char input, drop 1 (dropWhile is_scheme_char input))
      else None)"

definition URL_new :: "(string \<Rightarrow> string \<Rightarrow> js_error + string) \<Rightarrow> string \<Rightarrow> js_error + url" where
  "URL_new after_scheme input =
     (let s1 = rev (dropWhile is_c0_or_space (rev (dropWhile is_c0_or_space input)));
          s2 = filter (\<lambda>c. \<not> is_tab_or_newline c) s1;
          pre = takeWhile (\<lambda>c. c \<noteq> CHR ''#'') s2;
          frag = drop 1 (dropWhile (\<lambda>c. c \<noteq> CHR ''#'') s2)
      in case scheme_of pre of
           None \<Rightarrow> Inl TypeError
         | Some sr \<Rightarrow>
             (case after_scheme (fst sr) (snd sr) of
                Inl e \<Rightarrow> Inl e
              | Inr path \<Rightarrow>
                  Inr \<lparr>u_pathname = path,
                       u_hash = (if frag = [] then [] else CHR ''#'' # fragment_encode frag)\<rparr>))"

subsection \<open>What the sources rely on from the platform\<close>

definition aes_gcm_contract :: "('k, 'pk, 'sk) platform \<Rightarrow> bool" where
  \<comment> \<open>AES-GCM: 32 raw bytes import as a key; with a 12-byte nonce encryption succeeds, the
      ciphertext is the plaintext's length plus the 16-byte tag, and decryption under the
      same key and nonce recovers the plaintext\<close>
  "aes_gcm_contract pf =
     (\<forall>kb. length kb = 32 \<longrightarrow>
        (\<exists>key. aes_importKey pf kb = Inr key \<and>
           (\<forall>nonce pt. length nonce = 12 \<longrightarrow>
              (\<exists>ct. aes_encrypt pf key nonce pt = Inr ct \<and> length ct = length pt + 16
                    \<and> aes_decrypt pf key nonce ct = Inr pt))))"

definition text_codec_contract :: "('k, 'pk, 'sk) platform \<Rightarrow> bool" where
  \<comment> \<open>\<open>TextDecoder\<close> inverts \<open>TextEncoder\<close>\<close>
  "text_codec_contract pf = (\<forall>str. text_decode pf (text_encode pf str) = str)"

definition valid_key_pair :: "('k, 'pk, 'sk) platform \<Rightarrow> string \<Rightarrow> string \<Rightarrow> bool" where
  \<comment> \<open>\<open>(priv, pub)\<close> is a key pair of the signature scheme: both strings import, signing
      with \<open>priv\<close> succeeds and gives 64 bytes (ECDSA on P-256), and that signature
      verifies under \<open>pub\<close> for the data that was signed. Nothing is asked about other
      data or other keys.\<close>
  "valid_key_pair pf priv pub =
     (pub \<noteq> [] \<and>
      (\<exists>sk pk. importPrivateKey pf priv = Inr sk \<and> importPublicKey pf pub = Inr pk \<and>
        (\<forall>rnd data. \<exists>sig. ecdsa_sign pf sk rnd data = Inr sig \<and> length sig = 64 \<and>
           ecdsa_verify pf pk sig data = Inr True)))"

subsection \<open>Sample instances, for evaluating the model at concrete inputs\<close>

text \<open>
  A small platform that meets the contracts above. An AES key is its raw bytes, and a
  ciphertext is the plaintext followed by a 16-byte tag made of the nonce and the start
  of the key. A signature is 64 copies of the byte sum of key and data, so signatures
  have the length of ECDSA's and different data can share one; the private and the
  public key are the same bytes. A payload is serialised as sender, a bar, and content.
  The engine accepts 65536 arguments, the fixed limit of JavaScriptCore.
\<close>

definition sample_tag :: "byte list \<Rightarrow> byte list \<Rightarrow> byte list" where
  "sample_tag key nonce = take 16 (nonce @ key @ replicate 16 0)"

definition sample_signature :: "byte list \<Rightarrow> byte list \<Rightarrow> byte list" where
  "sample_signature key data = replicate 64 (sum_list (key @ data))"

definition sample_platform :: "(byte list, byte list, byte list) platform" where
  "sample_platform =
     \<lparr>aes_importKey = (\<lambda>kb. if length kb = 16 \<or> length kb = 24 \<or> length kb = 32
                              then Inr kb else Inl DataError),
      aes_encrypt = (\<lambda>key nonce pt. Inr (pt @ sample_tag key nonce)),
      aes_decrypt = (\<lambda>key nonce ct.
                       if 16 \<le> length ct \<and> drop (length ct - 16) ct = sample_tag key nonce
                       then Inr (take (length ct - 16) ct) else Inl OperationError),
      ecdsa_importPublicKey = (\<lambda>kb. if kb = [] then Inl DataError else Inr kb),
      ecdsa_importPrivateKey = (\<lambda>kb. if kb = [] then Inl DataError else Inr kb),
      ecdsa_sign = (\<lambda>sk rnd data. Inr (sample_signature sk data)),
      ecdsa_verify = (\<lambda>pk sig data. Inr (sig = sample_signature pk data)),
      sha256 = (\<lambda>bytes. replicate 32 (of_nat (length bytes))),
      json_stringify = (\<lambda>pl. p_sender pl @ ''|'' @ p_content pl),
      json_parse = (\<lambda>str. Inr \<lparr>p_sender = takeWhile (\<lambda>c. c \<noteq> CHR ''|'') str,
                                 p_content = drop 1 (dropWhile (\<lambda>c. c \<noteq> CHR ''|'') str),
                                 p_type = Text, p_publicKey = None, p_signature = None\<rparr>),
      text_encode = map byte_of_char,
      text_decode = map char_of_byte,
      max_arguments = 65536\<rparr>"

definition sample_key_bytes :: "byte list" where
  "sample_key_bytes = replicate 32 7"

definition sample_secret :: string where
  \<comment> \<open>the URL-safe base64 of \<open>sample_key_bytes\<close>\<close>
  "sample_secret = ''BwcHBwcHBwcHBwcHBwcHBwcHBwcHBwcHBwcHBwcHBwc''"

definition sample_nonce :: "byte list" where
  "sample_nonce = replicate 12 1"

definition sample_session :: session where
  \<comment> \<open>a session that has seen two messages and has a listener for \<open>error\<close>\<close>
  "sample_session =
     (Session_new ''https://fogchan.example'' ''0123456789abcdef0123456789abcdef''
        sample_secret ''Alice'' 5000 10000)
     \<lparr>lastTimestamp := 100, intervalId := Some 1, seenIds := {''a'', ''b''},
      has_error_listener := True\<rparr>"

definition sample_identity_key :: string where
  \<comment> \<open>the base64 of the bytes 1, 2, 3; in the sample platform the private and the public
      key are the same string\<close>
  "sample_identity_key = ''AQID''"


definition sample_long_bytes :: "byte list" where
  "sample_long_bytes = replicate 200000 0"

definition sample_long_text :: string where
  "sample_long_text = replicate 200000 CHR ''a''"

definition sample_after_scheme :: "string \<Rightarrow> string \<Rightarrow> js_error + string" where
  \<comment> \<open>The platform's parser on \<open>http://host/path\<close> and \<open>https://host/path\<close>, for a
      plain host name and a path and query that need no normalisation: the pathname is
      the path, or \<open>/\<close> when there is none, and an empty host is a failure. It stands for
      the platform on such links only.\<close>
  "sample_after_scheme scheme rest =
     (if (scheme = ''http'' \<or> scheme = ''https'') \<and> take 2 rest = ''//''
      then
        (let host = takeWhile (\<lambda>c. c \<noteq> CHR ''/'' \<and> c \<noteq> CHR ''?'') (drop 2 rest);
             path = takeWhile (\<lambda>c. c \<noteq> CHR ''?'')
                      (dropWhile (\<lambda>c. c \<noteq> CHR ''/'' \<and> c \<noteq> CHR ''?'') (drop 2 rest))
         in if host = [] then Inl TypeError
            else Inr (if path = [] then ''/'' else path))
      else Inl TypeError)"

definition sample_roomId :: string where
  "sample_roomId = ''0123456789abcdef0123456789abcdef''"

definition net_const :: "js_error + response \<Rightarrow> fetch" where
  \<comment> \<open>a network that answers every request the same way\<close>
  "net_const r req = r"

subsection \<open>Auxiliary definitions used in the proofs\<close>

definition hex_group :: "string \<Rightarrow> nat \<Rightarrow> byte" where
  "hex_group hex k = ToUint8 (parseInt16 (substring hex (2 * k) (2 * k + 2)))"

definition hex2 :: "byte \<Rightarrow> string" where
  "hex2 b = [hex_digits ! (unat b div 16), hex_digits ! (unat b mod 16)]"

text \<open>The unpadded part of \<open>btoa_groups\<close> and its padding.\<close>

fun b64_core :: "nat list \<Rightarrow> string" where
  "b64_core (a # b # c # r) =
     [b64_char (a div 4), b64_char ((a mod 4) * 16 + b div 16),
      b64_char ((b mod 16) * 4 + c div 64), b64_char (c mod 64)] @ b64_core r"
| "b64_core [a, b] =
     [b64_char (a div 4), b64_char ((a mod 4) * 16 + b div 16), b64_char ((b mod 16) * 4)]"
| "b64_core [a] = [b64_char (a div 4), b64_char ((a mod 4) * 16)]"
| "b64_core [] = []"

fun b64_pad :: "nat list \<Rightarrow> string" where
  "b64_pad (a # b # c # r) = b64_pad r"
| "b64_pad [a, b] = ''=''"
| "b64_pad [a] = ''==''"
| "b64_pad [] = []"

text \<open>The event that \<open>poll\<close> emits for a message it has not seen.\<close>

definition message_event_of ::
  "('k, 'pk, 'sk) platform \<Rightarrow> session \<Rightarrow> enc_message \<Rightarrow> event" where
  "message_event_of pf s msg =
     (case decrypt pf (em_ciphertext msg) (em_iv msg) (s_secretKey s) of
        Inr pl \<Rightarrow>
          MessageEvent \<lparr>sm_id = em_id msg, sm_sender = p_sender pl,
            sm_content = p_content pl, sm_timestamp = em_timestamp msg, sm_type = p_type pl\<rparr>
      | Inl e \<Rightarrow> DecryptErrorEvent (em_id msg) e)"

text \<open>
  The characters a URL fragment keeps as they are, and the part of a link before its
  fragment as the URL parser reads it.
\<close>

definition fragment_safe :: "char \<Rightarrow> bool" where
  "fragment_safe c = (\<not> in_fragment_encode_set c)"

definition url_prefix :: "string \<Rightarrow> string" where
  "url_prefix origin =
     filter (\<lambda>c. \<not> is_tab_or_newline c) (dropWhile is_c0_or_space origin) @ ''/''"

text \<open>
  The messages of a poll response that the loop processes: those whose id is neither in
  \<open>seenIds\<close> nor carried by an earlier message of the response.
\<close>

fun fresh_messages :: "string set \<Rightarrow> enc_message list \<Rightarrow> enc_message list" where
  "fresh_messages seen [] = []"
| "fresh_messages seen (m # ms) =
     (if em_id m \<in> seen then fresh_messages seen ms
      else m # fresh_messages (insert (em_id m) seen) ms)"

section \<open>Properties\<close>

subsection \<open>Hex codec\<close>

declare hexToBytes_loop.simps [simp del]

lemma hexToBytes_loop_from:
  "length bytes = length hex div 2 \<Longrightarrow> k \<le> length hex div 2 \<Longrightarrow>
   hexToBytes_loop hex (2 * k) bytes = take k bytes @ map (hex_group hex) [k..<length hex div 2]"
proof (induction "length hex div 2 - k" arbitrary: k bytes)
  case 0
  then have k: "k = length hex div 2" by simp
  show ?case
  proof (cases "2 * k < length hex")
    case True
    then have nlt: "\<not> 2 * k + 2 < length hex" using k by presburger
    have "hexToBytes_loop hex (2 * k) bytes
          = hexToBytes_loop hex (2 * k + 2) (typed_array_set bytes ((2 * k) div 2)
              (ToUint8 (parseInt16 (substring hex (2 * k) (2 * k + 2)))))"
      using True by (subst hexToBytes_loop.simps) simp
    also have "\<dots> = typed_array_set bytes ((2 * k) div 2)
              (ToUint8 (parseInt16 (substring hex (2 * k) (2 * k + 2))))"
      using nlt by (subst hexToBytes_loop.simps) simp
    also have "\<dots> = bytes" using k 0 by (simp add: typed_array_set_def)
    finally show ?thesis using k 0 by simp
  next
    case False
    then have "hexToBytes_loop hex (2 * k) bytes = bytes"
      by (subst hexToBytes_loop.simps) simp
    then show ?thesis using k 0 by simp
  qed
next
  case (Suc n)
  then have lt: "k < length hex div 2" by simp
  then have lt2: "2 * k < length hex" by presburger
  let ?v = "hex_group hex k"
  have step: "hexToBytes_loop hex (2 * k) bytes = hexToBytes_loop hex (2 * Suc k) (bytes[k := ?v])"
    using lt lt2 Suc.prems
    by (subst hexToBytes_loop.simps) (simp add: typed_array_set_def hex_group_def)
  have "hexToBytes_loop hex (2 * Suc k) (bytes[k := ?v])
        = take (Suc k) (bytes[k := ?v]) @ map (hex_group hex) [Suc k..<length hex div 2]"
    using Suc lt by (intro Suc.hyps(1)) auto
  also have "take (Suc k) (bytes[k := ?v]) = take k bytes @ [?v]"
    using lt Suc.prems by (simp add: take_Suc_conv_app_nth)
  finally show ?case using step lt by (simp add: upt_conv_Cons)
qed

lemma hexToBytes_groups: "hexToBytes hex = map (hex_group hex) [0..<length hex div 2]"
  using hexToBytes_loop_from[of "replicate (length hex div 2) 0" hex 0]
  by (simp add: hexToBytes_def)

lemma length_hexToBytes: "length (hexToBytes hex) = length hex div 2"
  by (simp add: hexToBytes_groups)


lemma byte_less_256: "unat (b :: byte) < 256"
  using unsigned_less[of b, where 'a = nat] by simp

lemma padStart_toString16: "padStart 2 CHR ''0'' (toString16 b) = hex2 b"
  by (simp add: padStart_def toString16_def hex2_def hex_digits_def)

lemma bytesToHex_Cons: "bytesToHex (b # bs) = hex2 b @ bytesToHex bs"
  by (simp add: bytesToHex_def padStart_toString16)

lemma length_bytesToHex: "length (bytesToHex bs) = 2 * length bs"
  by (induction bs) (simp_all add: bytesToHex_Cons hex2_def, simp add: bytesToHex_def)

lemma substring_bytesToHex:
  "k < length bs \<Longrightarrow> substring (bytesToHex bs) (2 * k) (2 * k + 2) = hex2 (bs ! k)"
proof (induction bs arbitrary: k)
  case Nil
  then show ?case by simp
next
  case (Cons b bs)
  show ?case
  proof (cases k)
    case 0
    then show ?thesis by (simp add: bytesToHex_Cons substring_def hex2_def)
  next
    case (Suc j)
    then have "substring (bytesToHex (b # bs)) (2 * k) (2 * k + 2)
               = substring (bytesToHex bs) (2 * j) (2 * j + 2)"
      by (simp add: bytesToHex_Cons substring_def hex2_def)
    then show ?thesis using Cons Suc by simp
  qed
qed

lemma hex_digits_all:
  "list_all (\<lambda>c. \<not> is_js_whitespace c \<and> c \<noteq> CHR ''-'' \<and> c \<noteq> CHR ''+'' \<and> c \<noteq> CHR ''x''
                \<and> c \<noteq> CHR ''X'' \<and> is_hex_digit c) hex_digits"
  by (simp add: hex_digits_def is_js_whitespace_def is_hex_digit_def hex_digit_value_def)

lemma hex_digits_vals: "map digit_val hex_digits = [0..<16]"
  by (simp add: hex_digits_def digit_val_def hex_digit_value_def upt_conv_Cons)

lemma length_hex_digits: "length hex_digits = 16"
  by (simp add: hex_digits_def)

lemma hex_digit_props:
  assumes "n < 16"
  shows "\<not> is_js_whitespace (hex_digits ! n)"
    and "hex_digits ! n \<noteq> CHR ''-''" and "hex_digits ! n \<noteq> CHR ''+''"
    and "hex_digits ! n \<noteq> CHR ''x''" and "hex_digits ! n \<noteq> CHR ''X''"
    and "is_hex_digit (hex_digits ! n)" and "digit_val (hex_digits ! n) = n"
proof -
  have mem: "hex_digits ! n \<in> set hex_digits"
    using assms by (simp add: length_hex_digits)
  show "\<not> is_js_whitespace (hex_digits ! n)"
    and "hex_digits ! n \<noteq> CHR ''-''" and "hex_digits ! n \<noteq> CHR ''+''"
    and "hex_digits ! n \<noteq> CHR ''x''" and "hex_digits ! n \<noteq> CHR ''X''"
    and "is_hex_digit (hex_digits ! n)"
    using hex_digits_all mem unfolding list_all_iff by blast+
  have "digit_val (hex_digits ! n) = map digit_val hex_digits ! n"
    using assms by (simp add: length_hex_digits)
  then show "digit_val (hex_digits ! n) = n"
    using assms by (simp add: hex_digits_vals)
qed

lemma parseInt16_hex_pair:
  assumes "a < 16" "c < 16"
  shows "parseInt16 [hex_digits ! a, hex_digits ! c] = Some (int (a * 16 + c))"
  using hex_digit_props[OF assms(1)] hex_digit_props[OF assms(2)]
  by (simp add: parseInt16_def Let_def)

lemma hex_group_bytesToHex:
  assumes "k < length bs"
  shows "hex_group (bytesToHex bs) k = bs ! k"
proof -
  let ?b = "bs ! k"
  have "unat ?b div 16 < 16" "unat ?b mod 16 < 16"
    using byte_less_256[of ?b] by simp_all
  then have "parseInt16 (hex2 ?b) = Some (int (unat ?b div 16 * 16 + unat ?b mod 16))"
    unfolding hex2_def by (rule parseInt16_hex_pair)
  then have "parseInt16 (hex2 ?b) = Some (int (unat ?b))" by simp
  then show ?thesis
    using substring_bytesToHex[OF assms] by (simp add: hex_group_def ToUint8_def)
qed

lemma hexToBytes_bytesToHex: "hexToBytes (bytesToHex bs) = bs"
proof -
  have "map (hex_group (bytesToHex bs)) [0..<length bs] = map ((!) bs) [0..<length bs]"
    by (rule map_cong) (simp_all add: hex_group_bytesToHex)
  then show ?thesis
    by (simp add: hexToBytes_groups length_bytesToHex map_nth)
qed

lemma substring_append_within:
  "j \<le> length s \<Longrightarrow> substring (s @ t) i j = substring s i j"
  by (simp add: substring_def)

lemma hexToBytes_drop_odd:
  assumes "even (length hex)"
  shows "hexToBytes (hex @ [c]) = hexToBytes hex"
proof -
  have n: "length (hex @ [c]) div 2 = length hex div 2" using assms by simp
  have "map (hex_group (hex @ [c])) [0..<length hex div 2] = map (hex_group hex) [0..<length hex div 2]"
  proof (rule map_cong[OF refl])
    fix k assume "k \<in> set [0..<length hex div 2]"
    then have "2 * k + 2 \<le> length hex" using assms by auto
    then show "hex_group (hex @ [c]) k = hex_group hex k"
      by (simp add: hex_group_def substring_append_within)
  qed
  then show ?thesis by (simp only: hexToBytes_groups n)
qed

lemma parseInt16_no_digit:
  assumes "\<not> is_js_whitespace a" "a \<noteq> CHR ''-''" "a \<noteq> CHR ''+''" "\<not> is_hex_digit a"
  shows "parseInt16 [a, b] = None"
  using assms by (auto simp: parseInt16_def Let_def hex_digit_value_def is_hex_digit_def hex_digits_def)

lemma hexToBytes_pair: "hexToBytes [a, b] = [ToUint8 (parseInt16 [a, b])]"
  by (simp add: hexToBytes_groups hex_group_def substring_def)


subsection \<open>Base64 codecs\<close>

lemma btoa_groups_core_pad: "btoa_groups xs = b64_core xs @ b64_pad xs"
  by (induction xs rule: btoa_groups.induct) simp_all

lemma index_of_nth: "distinct xs \<Longrightarrow> n < length xs \<Longrightarrow> index_of (xs ! n) xs = Some n"
proof (induction xs arbitrary: n)
  case Nil
  then show ?case by simp
next
  case (Cons x xs)
  then show ?case by (cases n) auto
qed

lemma index_of_None: "(index_of x xs = None) = (x \<notin> set xs)"
  by (induction xs) (auto split: option.splits)

lemma length_b64_alphabet: "length b64_alphabet = 64"
  by (simp add: b64_alphabet_def)

lemma distinct_b64_alphabet: "distinct b64_alphabet"
  by (simp add: b64_alphabet_def)

lemma b64_alphabet_all:
  "list_all (\<lambda>c. c \<noteq> CHR ''='' \<and> c \<noteq> CHR ''-'' \<and> c \<noteq> CHR ''_'' \<and> \<not> is_ascii_whitespace c) b64_alphabet"
  by (simp add: b64_alphabet_def is_ascii_whitespace_def)

lemma b64_char_mem: "n < 64 \<Longrightarrow> b64_char n \<in> set b64_alphabet"
  by (simp add: b64_char_def length_b64_alphabet)

lemma sextet_b64_char: "n < 64 \<Longrightarrow> sextet (b64_char n) = n"
  by (simp add: sextet_def b64_char_def index_of_nth distinct_b64_alphabet length_b64_alphabet)

lemma sextet_bounds:
  fixes a b c :: nat
  assumes "a < 256" "b < 256" "c < 256"
  shows "a div 4 < 64" "a mod 4 * 16 + b div 16 < 64" "b mod 16 * 4 + c div 64 < 64"
    "c mod 64 < 64" "a mod 4 * 16 < 64" "b mod 16 * 4 < 64"
  using assms by simp_all

lemma sextet_join1:
  fixes a b :: nat
  assumes "b < 256"
  shows "a div 4 * 4 + (a mod 4 * 16 + b div 16) div 16 = a"
proof -
  have "b div 16 < 16" using assms by simp
  then have "(a mod 4 * 16 + b div 16) div 16 = a mod 4" by simp
  then show ?thesis by simp
qed

lemma sextet_join2:
  fixes a b c :: nat
  assumes "b < 256" "c < 256"
  shows "(a mod 4 * 16 + b div 16) mod 16 * 16 + (b mod 16 * 4 + c div 64) div 4 = b"
proof -
  have "b div 16 < 16" using assms by simp
  then have 1: "(a mod 4 * 16 + b div 16) mod 16 = b div 16" by simp
  have "c div 64 < 4" using assms by simp
  then have 2: "(b mod 16 * 4 + c div 64) div 4 = b mod 16" by simp
  show ?thesis unfolding 1 2 by simp
qed

lemma sextet_join3:
  fixes b c :: nat
  assumes "c < 256"
  shows "(b mod 16 * 4 + c div 64) mod 4 * 64 + c mod 64 = c"
proof -
  have "c div 64 < 4" using assms by simp
  then have 1: "(b mod 16 * 4 + c div 64) mod 4 = c div 64" by simp
  show ?thesis unfolding 1 by simp
qed

lemma b64_core_alphabet:
  "list_all (\<lambda>x. x < 256) xs \<Longrightarrow> set (b64_core xs) \<subseteq> set b64_alphabet"
proof (induction xs rule: b64_core.induct)
  case (1 a b c r)
  then show ?case using sextet_bounds[of a b c] by (simp add: b64_char_mem)
next
  case (2 a b)
  then show ?case using sextet_bounds[of a b 0] by (simp add: b64_char_mem)
next
  case (3 a)
  then show ?case using sextet_bounds[of a 0 0] by (simp add: b64_char_mem)
next
  case 4
  then show ?case by simp
qed

lemma sextet_join2_last:
  fixes a b :: nat
  assumes "b < 256"
  shows "(a mod 4 * 16 + b div 16) mod 16 * 16 + b mod 16 * 4 div 4 = b"
proof -
  have "b div 16 < 16" using assms by simp
  then have 1: "(a mod 4 * 16 + b div 16) mod 16 = b div 16" by simp
  show ?thesis unfolding 1 by simp
qed

lemma sextet_join1_last:
  fixes a :: nat
  shows "a div 4 * 4 + a mod 4 * 16 div 16 = a"
  by simp

lemma atob_groups_core:
  "list_all (\<lambda>x. x < 256) xs \<Longrightarrow> atob_groups (map sextet (b64_core xs)) = xs"
proof (induction xs rule: b64_core.induct)
  case (1 a b c r)
  then have ab: "a < 256" "b < 256" "c < 256" and r: "list_all (\<lambda>x. x < 256) r"
    by simp_all
  note bd = sextet_bounds[OF ab]
  have ih: "atob_groups (map sextet (b64_core r)) = r" using 1 r by simp
  show ?case
    by (simp only: b64_core.simps list.map append.simps atob_groups.simps ih
          sextet_b64_char[OF bd(1)] sextet_b64_char[OF bd(2)] sextet_b64_char[OF bd(3)]
          sextet_b64_char[OF bd(4)] sextet_join1[OF ab(2)] sextet_join2[OF ab(2,3)]
          sextet_join3[OF ab(3)])
next
  case (2 a b)
  then have ab: "a < 256" "b < 256" by simp_all
  have z: "(0::nat) < 256" by simp
  note bd = sextet_bounds[OF ab z]
  show ?case
    by (simp only: b64_core.simps list.map atob_groups.simps
          sextet_b64_char[OF bd(1)] sextet_b64_char[OF bd(2)] sextet_b64_char[OF bd(6)]
          sextet_join1[OF ab(2)] sextet_join2_last[OF ab(2)])
next
  case (3 a)
  then have a: "a < 256" by simp
  have z: "(0::nat) < 256" by simp
  note bd = sextet_bounds[OF a z z]
  show ?case
    by (simp only: b64_core.simps list.map atob_groups.simps
          sextet_b64_char[OF bd(1)] sextet_b64_char[OF bd(5)] sextet_join1_last)
next
  case 4
  then show ?case by simp
qed


lemma b64_alphabet_props:
  assumes "c \<in> set b64_alphabet"
  shows "c \<noteq> CHR ''=''" "c \<noteq> CHR ''-''" "c \<noteq> CHR ''_''" "\<not> is_ascii_whitespace c"
  using b64_alphabet_all assms unfolding list_all_iff by blast+

lemma is_ascii_whitespace_eq: "\<not> is_ascii_whitespace CHR ''=''"
  by (simp add: is_ascii_whitespace_def)

lemma length_b64_core_mod4: "length (b64_core xs) mod 4 \<noteq> 1"
  by (induction xs rule: b64_core.induct) simp_all

lemma length_btoa_groups_mod4: "length (btoa_groups xs) mod 4 = 0"
  by (induction xs rule: btoa_groups.induct) simp_all

lemma b64_pad_cases: "b64_pad xs = [] \<or> b64_pad xs = ''='' \<or> b64_pad xs = ''==''"
  by (induction xs rule: b64_pad.induct) simp_all

lemma b64_pad_replicate:
  "b64_pad xs = replicate ((4 - length (b64_core xs) mod 4) mod 4) CHR ''=''"
proof (induction xs rule: b64_core.induct)
  case (1 a b c r)
  have "length (b64_core (a # b # c # r)) mod 4 = length (b64_core r) mod 4"
    by simp
  then show ?case using 1 by simp
qed (simp_all add: numeral_2_eq_2)

lemma strip_padding_core_pad:
  assumes "CHR ''='' \<notin> set core" and "length (core @ pad) mod 4 = 0"
    and "pad = [] \<or> pad = ''='' \<or> pad = ''==''"
  shows "strip_padding (core @ pad) = core"
proof -
  consider "pad = []" | "pad = ''=''" | "pad = ''==''" using assms(3) by blast
  then show ?thesis
  proof cases
    case 1
    show ?thesis
    proof (cases "core = []")
      case True
      then show ?thesis using 1 by (simp add: strip_padding_def)
    next
      case False
      then have l: "last core \<noteq> CHR ''=''" using assms(1) last_in_set by metis
      have d1: "drop (length core - 1) core = [last core]"
        using False by (metis append_butlast_last_id append_eq_conv_conj length_butlast)
      have "drop (length core - 2) core \<noteq> ''==''"
      proof
        assume e: "drop (length core - 2) core = ''==''"
        then have "CHR ''='' \<in> set (drop (length core - 2) core)" by simp
        then show False using assms(1) in_set_dropD by metis
      qed
      then show ?thesis using 1 l d1 by (simp add: strip_padding_def)
    qed
  next
    case 2
    have ne: "drop (length core - 1) (core @ ''='') \<noteq> ''==''"
    proof
      assume e: "drop (length core - 1) (core @ ''='') = ''==''"
      then have "core \<noteq> []" by auto
      then have "drop (length core - 1) core = [last core]"
        by (metis append_butlast_last_id append_eq_conv_conj length_butlast)
      then have "last core = CHR ''=''" using e by simp
      then show False using assms(1) \<open>core \<noteq> []\<close> last_in_set by metis
    qed
    show ?thesis using 2 assms(2) ne by (simp add: strip_padding_def)
  next
    case 3
    then show ?thesis using assms(2) by (simp add: strip_padding_def)
  qed
qed

lemma atob_btoa_groups:
  assumes "list_all (\<lambda>x. x < 256) xs"
  shows "atob (btoa_groups xs) = Inr (map char_of xs)"
proof -
  have sub: "set (b64_core xs) \<subseteq> set b64_alphabet" by (rule b64_core_alphabet[OF assms])
  have noeq: "CHR ''='' \<notin> set (b64_core xs)" using sub b64_alphabet_props(1) by blast
  have nows: "\<forall>c \<in> set (btoa_groups xs). \<not> is_ascii_whitespace c"
    using sub b64_alphabet_props(4) b64_pad_cases[of xs] is_ascii_whitespace_eq
    by (auto simp: btoa_groups_core_pad)
  then have f: "filter (\<lambda>c. \<not> is_ascii_whitespace c) (btoa_groups xs) = btoa_groups xs"
    by (simp add: filter_id_conv)
  have sp: "strip_padding (btoa_groups xs) = b64_core xs"
    unfolding btoa_groups_core_pad
    using noeq length_btoa_groups_mod4[of xs] b64_pad_cases[of xs]
    by (intro strip_padding_core_pad) (simp_all add: btoa_groups_core_pad)
  have ex: "\<not> list_ex (\<lambda>c. index_of c b64_alphabet = None) (b64_core xs)"
    using sub by (auto simp: list_ex_iff index_of_None)
  show ?thesis
    using length_b64_core_mod4[of xs] ex
    by (simp add: atob_def Let_def f sp atob_groups_core[OF assms])
qed

lemma of_char_less_256: "of_char c < (256 :: nat)"
  by (cases c) simp

lemma atob_btoa: "atob (btoa s) = Inr s"
proof -
  have "list_all (\<lambda>x. x < 256) (map of_char s :: nat list)"
    by (simp add: list_all_iff of_char_less_256)
  then have "atob (btoa s) = Inr (map char_of (map of_char s :: nat list))"
    unfolding btoa_def by (rule atob_btoa_groups)
  then show ?thesis by (simp add: comp_def)
qed

lemma byte_of_char_of_byte: "byte_of_char (char_of_byte w) = w"
  using byte_less_256[of w] by (simp add: byte_of_char_def char_of_byte_def)

lemma bytesToBase64_ok:
  "length x \<le> n \<Longrightarrow> bytesToBase64 n x = Inr (btoa (map char_of_byte x))"
  by (simp add: bytesToBase64_def String_fromCharCode_def)

lemma bytesToBase64_too_long: "n < length x \<Longrightarrow> bytesToBase64 n x = Inl RangeError"
  by (simp add: bytesToBase64_def String_fromCharCode_def)

lemma base64ToBytes_btoa: "base64ToBytes (btoa (map char_of_byte x)) = Inr x"
  by (simp add: base64ToBytes_def atob_btoa comp_def byte_of_char_of_byte)

lemma base64ToBytes_bytesToBase64: "bytesToBase64 n x = Inr s \<Longrightarrow> base64ToBytes s = Inr x"
  by (cases "length x \<le> n")
     (auto simp: bytesToBase64_ok bytesToBase64_too_long base64ToBytes_btoa not_le)

lemma url_translate_core:
  assumes "set core \<subseteq> set b64_alphabet"
  shows "replace_char CHR ''_'' CHR ''/'' (replace_char CHR ''-'' CHR ''+''
           (replace_char CHR ''/'' CHR ''_'' (replace_char CHR ''+'' CHR ''-'' core))) = core"
proof -
  have "\<forall>c \<in> set core. c \<noteq> CHR ''-'' \<and> c \<noteq> CHR ''_''"
    using assms b64_alphabet_props by blast
  then show ?thesis
    by (induction core) (auto simp: replace_char_def)
qed

lemma url_strip_pad:
  assumes "CHR ''='' \<notin> set core" and "pad = [] \<or> pad = ''='' \<or> pad = ''==''"
  shows "remove_char CHR ''='' (replace_char CHR ''/'' CHR ''_'' (replace_char CHR ''+'' CHR ''-'' (core @ pad)))
         = replace_char CHR ''/'' CHR ''_'' (replace_char CHR ''+'' CHR ''-'' core)"
proof -
  have "\<forall>c \<in> set core. c \<noteq> CHR ''=''" using assms(1) by blast
  then have "remove_char CHR ''='' (replace_char CHR ''/'' CHR ''_'' (replace_char CHR ''+'' CHR ''-'' core))
         = replace_char CHR ''/'' CHR ''_'' (replace_char CHR ''+'' CHR ''-'' core)"
    by (induction core) (auto simp: remove_char_def replace_char_def)
  then show ?thesis using assms(2) by (auto simp: remove_char_def replace_char_def)
qed

lemma base64UrlToBytes_url_text:
  "base64UrlToBytes (remove_char CHR ''=''
      (replace_char CHR ''/'' CHR ''_'' (replace_char CHR ''+'' CHR ''-'' (btoa cs))))
   = Inr (map byte_of_char cs)"
proof -
  let ?xs = "map of_char cs :: nat list"
  have all: "list_all (\<lambda>n. n < 256) ?xs"
    by (simp add: list_all_iff of_char_less_256)
  have sub: "set (b64_core ?xs) \<subseteq> set b64_alphabet" by (rule b64_core_alphabet[OF all])
  have noeq: "CHR ''='' \<notin> set (b64_core ?xs)" using sub b64_alphabet_props(1) by blast
  let ?u = "replace_char CHR ''/'' CHR ''_'' (replace_char CHR ''+'' CHR ''-'' (b64_core ?xs))"
  have enc: "remove_char CHR ''=''
      (replace_char CHR ''/'' CHR ''_'' (replace_char CHR ''+'' CHR ''-'' (btoa cs))) = ?u"
    using url_strip_pad[OF noeq b64_pad_cases[of ?xs]]
    by (simp add: btoa_def btoa_groups_core_pad)
  have inv: "replace_char CHR ''_'' CHR ''/'' (replace_char CHR ''-'' CHR ''+'' ?u) = b64_core ?xs"
    by (rule url_translate_core[OF sub])
  have "base64UrlToBytes ?u
        = (case atob (btoa cs) of Inl e \<Rightarrow> Inl e | Inr s \<Rightarrow> Inr (map byte_of_char s))"
    unfolding base64UrlToBytes_def Let_def inv
    by (simp only: btoa_def btoa_groups_core_pad b64_pad_replicate[of ?xs])
  then show ?thesis
    by (simp add: enc atob_btoa)
qed

lemma bytesToBase64Url_ok:
  "length x \<le> n \<Longrightarrow>
   bytesToBase64Url n x
   = Inr (remove_char CHR ''='' (replace_char CHR ''/'' CHR ''_''
            (replace_char CHR ''+'' CHR ''-'' (btoa (map char_of_byte x)))))"
  by (simp add: bytesToBase64Url_def String_fromCharCode_def)

lemma bytesToBase64Url_too_long: "n < length x \<Longrightarrow> bytesToBase64Url n x = Inl RangeError"
  by (simp add: bytesToBase64Url_def String_fromCharCode_def)

lemma base64UrlToBytes_bytesToBase64Url:
  "bytesToBase64Url n x = Inr s \<Longrightarrow> base64UrlToBytes s = Inr x"
proof (cases "length x \<le> n")
  case True
  assume "bytesToBase64Url n x = Inr s"
  then have "s = remove_char CHR ''='' (replace_char CHR ''/'' CHR ''_''
            (replace_char CHR ''+'' CHR ''-'' (btoa (map char_of_byte x))))"
    by (simp add: bytesToBase64Url_ok[OF True])
  then show ?thesis
    by (simp only: base64UrlToBytes_url_text) (simp add: comp_def byte_of_char_of_byte)
next
  case False
  assume "bytesToBase64Url n x = Inr s"
  then show ?thesis using False by (simp add: bytesToBase64Url_too_long)
qed


subsection \<open>Encryption, the session and the identity functions\<close>

lemma importKey_decoded:
  "base64UrlToBytes secret = Inr kb \<Longrightarrow> importKey pf secret = aes_importKey pf kb"
  by (simp add: importKey_def)

lemma decrypt_encrypt:
  assumes "aes_gcm_contract pf" and "text_codec_contract pf"
    and "json_parse pf (json_stringify pf pl) = Inr pl"
    and "base64UrlToBytes secret = Inr kb" and "length kb = 32" and "length nonce = 12"
    and "length (text_encode pf (json_stringify pf pl)) + 16 \<le> max_arguments pf"
  shows "\<exists>r. encrypt pf pl secret nonce = Inr r
             \<and> decrypt pf (er_ciphertext r) (er_iv r) secret = Inr pl"
proof -
  let ?pt = "text_encode pf (json_stringify pf pl)"
  obtain key where key: "aes_importKey pf kb = Inr key"
    and rt: "\<forall>n pt. length n = 12 \<longrightarrow>
              (\<exists>ct. aes_encrypt pf key n pt = Inr ct \<and> length ct = length pt + 16
                    \<and> aes_decrypt pf key n ct = Inr pt)"
    using assms(1,5) unfolding aes_gcm_contract_def by blast
  obtain ct where ct: "aes_encrypt pf key nonce ?pt = Inr ct"
    and len: "length ct = length ?pt + 16"
    and dec: "aes_decrypt pf key nonce ct = Inr ?pt"
    using rt assms(6) by blast
  have b1: "bytesToBase64 (max_arguments pf) ct = Inr (btoa (map char_of_byte ct))"
    using len assms(7) by (intro bytesToBase64_ok) simp
  have b2: "bytesToBase64 (max_arguments pf) nonce = Inr (btoa (map char_of_byte nonce))"
    using assms(6,7) by (intro bytesToBase64_ok) simp
  let ?r = "\<lparr>er_ciphertext = btoa (map char_of_byte ct), er_iv = btoa (map char_of_byte nonce)\<rparr>"
  have e: "encrypt pf pl secret nonce = Inr ?r"
    by (simp add: encrypt_def importKey_decoded[OF assms(4)] key ct b1 b2)
  have td: "text_decode pf ?pt = json_stringify pf pl"
    using assms(2) by (simp add: text_codec_contract_def)
  have d: "decrypt pf (er_ciphertext ?r) (er_iv ?r) secret = Inr pl"
    by (simp add: decrypt_def importKey_decoded[OF assms(4)] key base64ToBytes_btoa dec td assms(3))
  show ?thesis using e d by blast
qed

lemma encrypt_too_long:
  assumes "aes_gcm_contract pf"
    and "base64UrlToBytes secret = Inr kb" and "length kb = 32" and "length nonce = 12"
    and "max_arguments pf < length (text_encode pf (json_stringify pf pl)) + 16"
  shows "encrypt pf pl secret nonce = Inl RangeError"
proof -
  let ?pt = "text_encode pf (json_stringify pf pl)"
  obtain key where key: "aes_importKey pf kb = Inr key"
    and rt: "\<forall>n pt. length n = 12 \<longrightarrow>
              (\<exists>ct. aes_encrypt pf key n pt = Inr ct \<and> length ct = length pt + 16
                    \<and> aes_decrypt pf key n ct = Inr pt)"
    using assms(1,3) unfolding aes_gcm_contract_def by blast
  obtain ct where ct: "aes_encrypt pf key nonce ?pt = Inr ct"
    and len: "length ct = length ?pt + 16"
    using rt assms(4) by blast
  have "bytesToBase64 (max_arguments pf) ct = Inl RangeError"
    using len assms(5) by (intro bytesToBase64_too_long) simp
  then show ?thesis
    by (simp add: encrypt_def importKey_decoded[OF assms(2)] key ct)
qed

lemma char_of_byte_of_char: "char_of_byte (byte_of_char c) = c"
  using of_char_less_256[of c] by (simp add: byte_of_char_def char_of_byte_def unat_of_nat)

lemma sample_aes_gcm: "aes_gcm_contract sample_platform"
  by (simp add: aes_gcm_contract_def sample_platform_def sample_tag_def)

lemma sample_text_codec: "text_codec_contract sample_platform"
  by (simp add: text_codec_contract_def sample_platform_def comp_def char_of_byte_of_char)

lemma takeWhile_until: "x \<notin> set xs \<Longrightarrow> takeWhile (\<lambda>c. c \<noteq> x) (xs @ x # ys) = xs"
  by (induction xs) auto

lemma dropWhile_until: "x \<notin> set xs \<Longrightarrow> dropWhile (\<lambda>c. c \<noteq> x) (xs @ x # ys) = x # ys"
  by (induction xs) auto

lemma sample_json:
  "CHR ''|'' \<notin> set sender \<Longrightarrow>
   json_parse sample_platform (json_stringify sample_platform
      \<lparr>p_sender = sender, p_content = content, p_type = Text, p_publicKey = None, p_signature = None\<rparr>)
   = Inr \<lparr>p_sender = sender, p_content = content, p_type = Text, p_publicKey = None, p_signature = None\<rparr>"
  by (simp add: sample_platform_def takeWhile_until dropWhile_until)

lemma poll_message_seen:
  "em_id msg \<in> seenIds s \<Longrightarrow> poll_message pf (s, evs) msg = (s, evs)"
  by (simp add: poll_message_def)

lemma poll_message_new:
  assumes "em_id msg \<notin> seenIds s"
  shows "poll_message pf (s, evs) msg =
           (s\<lparr>seenIds := insert (em_id msg) (seenIds s),
              lastTimestamp := max (lastTimestamp s) (em_timestamp msg)\<rparr>,
            evs @ [message_event_of pf s msg])"
  using assms by (simp add: poll_message_def message_event_of_def Let_def max_def)

lemma poll_message_secretKey: "s_secretKey (fst (poll_message pf (s, evs) msg)) = s_secretKey s"
  by (cases "em_id msg \<in> seenIds s") (simp_all add: poll_message_seen poll_message_new)

lemma poll_message_lastTimestamp:
  "lastTimestamp s \<le> lastTimestamp (fst (poll_message pf (s, evs) msg))"
  by (cases "em_id msg \<in> seenIds s") (simp_all add: poll_message_seen poll_message_new)

lemma poll_message_seenIds:
  "seenIds (fst (poll_message pf (s, evs) msg)) = insert (em_id msg) (seenIds s)"
  by (cases "em_id msg \<in> seenIds s") (auto simp: poll_message_seen poll_message_new)

lemma foldl_poll_message_lastTimestamp:
  "lastTimestamp (fst acc) \<le> lastTimestamp (fst (foldl (poll_message pf) acc msgs))"
proof (induction msgs arbitrary: acc)
  case Nil
  then show ?case by simp
next
  case (Cons m ms)
  have "lastTimestamp (fst acc) \<le> lastTimestamp (fst (poll_message pf acc m))"
    using poll_message_lastTimestamp[of "fst acc" pf "snd acc" m] by simp
  also have "\<dots> \<le> lastTimestamp (fst (foldl (poll_message pf) (poll_message pf acc m) ms))"
    by (rule Cons.IH)
  finally show ?case by simp
qed

lemma foldl_poll_message_seenIds:
  "seenIds (fst (foldl (poll_message pf) acc msgs)) = seenIds (fst acc) \<union> em_id ` set msgs"
proof (induction msgs arbitrary: acc)
  case Nil
  then show ?case by simp
next
  case (Cons m ms)
  show ?case
    using Cons.IH[of "poll_message pf acc m"] poll_message_seenIds[of pf "fst acc" "snd acc" m]
    by auto
qed

lemma foldl_poll_message_count:
  "length (snd (foldl (poll_message pf) acc msgs))
     = length (snd acc) + card (em_id ` set msgs - seenIds (fst acc))"
proof (induction msgs arbitrary: acc)
  case Nil
  then show ?case by simp
next
  case (Cons m ms)
  obtain s evs where acc: "acc = (s, evs)" by (cases acc)
  show ?case
  proof (cases "em_id m \<in> seenIds s")
    case True
    then have "em_id ` set (m # ms) - seenIds s = em_id ` set ms - seenIds s" by auto
    then show ?thesis using Cons.IH[of acc] True acc by (simp add: poll_message_seen)
  next
    case False
    let ?s' = "s\<lparr>seenIds := insert (em_id m) (seenIds s),
                   lastTimestamp := max (lastTimestamp s) (em_timestamp m)\<rparr>"
    have eq: "em_id ` set (m # ms) - seenIds s
              = insert (em_id m) (em_id ` set ms - insert (em_id m) (seenIds s))"
      using False by auto
    have "card (em_id ` set (m # ms) - seenIds s)
          = Suc (card (em_id ` set ms - insert (em_id m) (seenIds s)))"
      unfolding eq by (rule card_insert_disjoint) auto
    then show ?thesis
      using Cons.IH[of "(?s', evs @ [message_event_of pf s m])"] False acc
      by (simp add: poll_message_new)
  qed
qed

lemma message_event_of_secretKey:
  "s_secretKey s' = s_secretKey s \<Longrightarrow> message_event_of pf s' m = message_event_of pf s m"
  by (simp add: message_event_of_def)

lemma Max_insert_max:
  fixes a b :: int
  assumes "finite A"
  shows "Max (insert (max a b) A) = Max (insert a (insert b A))"
  using assms by (cases "A = {}") (simp_all add: max.assoc)

lemma foldl_poll_message_fresh:
  "foldl (poll_message pf) (s, evs) msgs =
     (s\<lparr>seenIds := seenIds s \<union> em_id ` set msgs,
        lastTimestamp := Max (insert (lastTimestamp s)
                               (em_timestamp ` set (fresh_messages (seenIds s) msgs)))\<rparr>,
      evs @ map (message_event_of pf s) (fresh_messages (seenIds s) msgs))"
proof (induction msgs arbitrary: s evs)
  case Nil
  then show ?case by simp
next
  case (Cons m ms)
  show ?case
  proof (cases "em_id m \<in> seenIds s")
    case True
    have un: "seenIds s \<union> em_id ` set (m # ms) = seenIds s \<union> em_id ` set ms"
      using True by auto
    have fr: "fresh_messages (seenIds s) (m # ms) = fresh_messages (seenIds s) ms"
      using True by simp
    have "foldl (poll_message pf) (s, evs) (m # ms) = foldl (poll_message pf) (s, evs) ms"
      using True by (simp add: poll_message_seen)
    then show ?thesis unfolding un fr by (simp only: Cons.IH)
  next
    case False
    let ?s' = "s\<lparr>seenIds := insert (em_id m) (seenIds s),
                   lastTimestamp := max (lastTimestamp s) (em_timestamp m)\<rparr>"
    let ?F = "fresh_messages (insert (em_id m) (seenIds s)) ms"
    let ?T = "em_timestamp ` set ?F"
    have ev: "map (message_event_of pf ?s') ?F = map (message_event_of pf s) ?F"
      by (rule map_cong[OF refl], rule message_event_of_secretKey) simp
    have mx: "Max (insert (max (lastTimestamp s) (em_timestamp m)) ?T)
              = Max (insert (lastTimestamp s) (insert (em_timestamp m) ?T))"
      by (rule Max_insert_max) simp
    have un: "seenIds s \<union> em_id ` set (m # ms) = insert (em_id m) (seenIds s) \<union> em_id ` set ms"
      by auto
    have fr: "fresh_messages (seenIds s) (m # ms) = m # ?F"
      using False by simp
    have ts: "em_timestamp ` set (m # ?F) = insert (em_timestamp m) ?T"
      by simp
    have sel: "seenIds ?s' = insert (em_id m) (seenIds s)"
      "lastTimestamp ?s' = max (lastTimestamp s) (em_timestamp m)"
      by simp_all
    have st: "?s'\<lparr>seenIds := insert (em_id m) (seenIds s) \<union> em_id ` set ms,
                  lastTimestamp := Max (insert (lastTimestamp s) (insert (em_timestamp m) ?T))\<rparr>
              = s\<lparr>seenIds := insert (em_id m) (seenIds s) \<union> em_id ` set ms,
                  lastTimestamp := Max (insert (lastTimestamp s) (insert (em_timestamp m) ?T))\<rparr>"
      by simp
    have "foldl (poll_message pf) (s, evs) (m # ms)
          = foldl (poll_message pf) (?s', evs @ [message_event_of pf s m]) ms"
      using False by (simp add: poll_message_new)
    also have "\<dots> = (?s'\<lparr>seenIds := seenIds ?s' \<union> em_id ` set ms,
                       lastTimestamp := Max (insert (lastTimestamp ?s')
                          (em_timestamp ` set (fresh_messages (seenIds ?s') ms)))\<rparr>,
                     (evs @ [message_event_of pf s m])
                       @ map (message_event_of pf ?s') (fresh_messages (seenIds ?s') ms))"
      by (rule Cons.IH)
    also have "\<dots> = (s\<lparr>seenIds := insert (em_id m) (seenIds s) \<union> em_id ` set ms,
                  lastTimestamp := Max (insert (lastTimestamp s) (insert (em_timestamp m) ?T))\<rparr>,
                     evs @ message_event_of pf s m # map (message_event_of pf s) ?F)"
      unfolding sel ev mx st by simp
    finally show ?thesis unfolding un fr ts by simp
  qed
qed

lemma poll_messages_fresh:
  "poll_messages pf s msgs =
     (s\<lparr>seenIds := seenIds s \<union> em_id ` set msgs,
        lastTimestamp := Max (insert (lastTimestamp s)
                               (em_timestamp ` set (fresh_messages (seenIds s) msgs)))\<rparr>,
      map (message_event_of pf s) (fresh_messages (seenIds s) msgs))"
  using foldl_poll_message_fresh[of pf s "[]" msgs] by (simp add: poll_messages_def)

lemma is_message_event_of:
  "decrypt pf (em_ciphertext msg) (em_iv msg) (s_secretKey s) = Inr pl \<Longrightarrow>
   is_message_event (message_event_of pf s msg)"
  by (simp add: message_event_of_def is_message_event_def)

lemma poll_messages_same_id_twice:
  assumes "em_id msg \<notin> seenIds s" and "em_id msg' = em_id msg"
  shows "snd (poll_messages pf s [msg, msg']) = [message_event_of pf s msg]"
  using assms by (simp add: poll_messages_def poll_message_new poll_message_seen)

lemma sample_secret_decodes: "base64UrlToBytes sample_secret = Inr sample_key_bytes"
  by code_simp

lemma sample_lengths: "length sample_key_bytes = 32" "length sample_nonce = 12"
  by (simp_all add: sample_key_bytes_def sample_nonce_def)

lemma sample_session_fields:
  "seenIds sample_session = {''a'', ''b''}" "lastTimestamp sample_session = 100"
  "s_secretKey sample_session = sample_secret"
  "intervalId sample_session = Some 1" "s_name sample_session = ''Alice''"
  "s_roomId sample_session = ''0123456789abcdef0123456789abcdef''"
  "has_error_listener sample_session"
  by (simp_all add: sample_session_def Session_new_def)

lemma sample_encrypt_decrypt:
  "\<exists>r. encrypt sample_platform
          \<lparr>p_sender = ''Alice'', p_content = ''hi'', p_type = Text, p_publicKey = None, p_signature = None\<rparr>
          sample_secret sample_nonce = Inr r
      \<and> decrypt sample_platform (er_ciphertext r) (er_iv r) sample_secret
          = Inr \<lparr>p_sender = ''Alice'', p_content = ''hi'', p_type = Text, p_publicKey = None, p_signature = None\<rparr>"
proof -
  have j: "json_parse sample_platform (json_stringify sample_platform
      \<lparr>p_sender = ''Alice'', p_content = ''hi'', p_type = Text, p_publicKey = None, p_signature = None\<rparr>)
   = Inr \<lparr>p_sender = ''Alice'', p_content = ''hi'', p_type = Text, p_publicKey = None, p_signature = None\<rparr>"
    by (rule sample_json) simp
  have n: "length (text_encode sample_platform (json_stringify sample_platform
      \<lparr>p_sender = ''Alice'', p_content = ''hi'', p_type = Text, p_publicKey = None, p_signature = None\<rparr>))
      + 16 \<le> max_arguments sample_platform"
    by (simp add: sample_platform_def)
  show ?thesis
    by (rule decrypt_encrypt[OF sample_aes_gcm sample_text_codec j sample_secret_decodes sample_lengths n])
qed

lemma Session_poll_fetch_throws:
  "net (GET_messages (s_roomId s) (lastTimestamp s)) = Inl e \<Longrightarrow> has_error_listener s \<Longrightarrow>
   Session_poll pf s net = (Inr (), s, [ErrorEvent e])"
  by (simp add: Session_poll_def Session_poll_try_def)

lemma Session_poll_fetch_throws_unheard:
  "net (GET_messages (s_roomId s) (lastTimestamp s)) = Inl e \<Longrightarrow> \<not> has_error_listener s \<Longrightarrow>
   Session_poll pf s net = (Inl e, s, [])"
  by (simp add: Session_poll_def Session_poll_try_def)

lemma Session_poll_not_ok:
  "net (GET_messages (s_roomId s) (lastTimestamp s)) = Inr resp \<Longrightarrow> \<not> r_ok resp \<Longrightarrow>
   Session_poll pf s net = (Inr (), s, [])"
  by (simp add: Session_poll_def Session_poll_try_def)

lemma Session_poll_ok:
  "net (GET_messages (s_roomId s) (lastTimestamp s)) = Inr resp \<Longrightarrow> r_ok resp \<Longrightarrow>
   r_json resp = Inr (MessagesBody msgs n) \<Longrightarrow>
   Session_poll pf s net = (Inr (), poll_messages pf s msgs)"
  by (simp add: Session_poll_def Session_poll_try_def)

lemma chat_poll_clears:
  assumes "ch_roomId st \<noteq> []" and "ch_secretKey st \<noteq> []" and "displayedMessages st \<noteq> {}"
    and "net (GET_messages (ch_roomId st) (ch_lastTimestamp st))
           = Inr \<lparr>r_ok = True, r_json = Inr (MessagesBody msgs 0)\<rparr>"
  shows "chat_poll pf st net
           = st\<lparr>messagesContainer := [], displayedMessages := {}, ch_lastTimestamp := 0\<rparr>"
  using assms by (simp add: chat_poll_def getMessages_def)

lemma Session_send_state: "snd (Session_send pf s content nonce net) = s"
  by (simp add: Session_send_def split: sum.splits)

lemma btoa_groups_nonempty: "xs \<noteq> [] \<Longrightarrow> btoa_groups xs \<noteq> []"
  by (induction xs rule: btoa_groups.induct) simp_all

lemma btoa_nonempty: "x \<noteq> [] \<Longrightarrow> btoa (map char_of_byte x) \<noteq> []"
  by (simp add: btoa_def btoa_groups_nonempty)

lemma importPublicKey_decodes:
  "importPublicKey pf pub = Inr pk \<Longrightarrow> \<exists>kb. base64ToBytes pub = Inr kb"
  by (cases "base64ToBytes pub") (simp_all add: importPublicKey_def)


lemma verifyPayload_signed:
  assumes "pub \<noteq> []" and "sig64 \<noteq> []"
    and "base64ToBytes pub = Inr kb"
    and "verifySignature pf (sender @ '':'' @ content) sig64 pub = Inr v"
  shows "verifyPayload pf \<lparr>p_sender = sender, p_content = content, p_type = ty,
            p_publicKey = Some pub, p_signature = Some sig64\<rparr> mid ts
         = Inr \<lparr>m_id = mid, m_sender = sender, m_content = content, m_timestamp = ts,
                m_type = ty, m_publicKey = Some pub,
                m_fingerprint = Some (take 4 (bytesToHex (sha256 pf kb))), m_verified = v\<rparr>"
  using assms
  by (simp add: verifyPayload_def truthy_def opt_string_def getPublicKeyFingerprint_def)


lemma createSignedPayload_valid:
  assumes "importPrivateKey pf priv = Inr sk"
    and "ecdsa_sign pf sk rnd (text_encode pf (sender @ '':'' @ content)) = Inr sig"
    and "length sig \<le> max_arguments pf"
  shows "createSignedPayload pf sender content ty priv pub rnd
         = Inr \<lparr>p_sender = sender, p_content = content, p_type = ty,
                p_publicKey = Some pub, p_signature = Some (btoa (map char_of_byte sig))\<rparr>"
  using assms by (simp add: createSignedPayload_def signMessage_def bytesToBase64_ok)

lemma verifySignature_eval:
  assumes "importPublicKey pf pub = Inr pk"
  shows "verifySignature pf text (btoa (map char_of_byte sig)) pub
         = ecdsa_verify pf pk sig (text_encode pf text)"
  using assms by (simp add: verifySignature_def base64ToBytes_btoa)



lemma signed_payload_verifies:
  assumes vk: "valid_key_pair pf priv pub" and ma: "64 \<le> max_arguments pf"
    and eq: "sender @ '':'' @ content = sender' @ '':'' @ content'"
  shows "\<exists>pl. createSignedPayload pf sender content ty priv pub rnd = Inr pl
           \<and> (\<exists>m. verifyPayload pf (pl\<lparr>p_sender := sender', p_content := content'\<rparr>) mid ts = Inr m
                  \<and> m_verified m \<and> m_sender m = sender' \<and> m_content m = content')"
proof -
  let ?data = "text_encode pf (sender @ '':'' @ content)"
  obtain sk pk where ne: "pub \<noteq> []"
    and sk: "importPrivateKey pf priv = Inr sk" and pk: "importPublicKey pf pub = Inr pk"
    and sc: "\<forall>rnd data. \<exists>sig. ecdsa_sign pf sk rnd data = Inr sig \<and> length sig = 64 \<and>
               ecdsa_verify pf pk sig data = Inr True"
    using vk unfolding valid_key_pair_def by blast
  obtain sig where sg: "ecdsa_sign pf sk rnd ?data = Inr sig" and sl: "length sig = 64"
    and ver: "ecdsa_verify pf pk sig ?data = Inr True"
    using sc by blast
  have sne: "sig \<noteq> []" and sm: "length sig \<le> max_arguments pf"
    using sl ma by auto
  obtain kb where kb: "base64ToBytes pub = Inr kb"
    using importPublicKey_decodes[OF pk] by blast
  let ?pl = "\<lparr>p_sender = sender, p_content = content, p_type = ty,
                p_publicKey = Some pub, p_signature = Some (btoa (map char_of_byte sig))\<rparr>"
  have c: "createSignedPayload pf sender content ty priv pub rnd = Inr ?pl"
    by (rule createSignedPayload_valid[OF sk sg sm])
  have vs: "verifySignature pf (sender' @ '':'' @ content') (btoa (map char_of_byte sig)) pub = Inr True"
    using ver eq by (simp add: verifySignature_eval[OF pk])
  have "verifyPayload pf \<lparr>p_sender = sender', p_content = content', p_type = ty,
            p_publicKey = Some pub, p_signature = Some (btoa (map char_of_byte sig))\<rparr> mid ts
         = Inr \<lparr>m_id = mid, m_sender = sender', m_content = content', m_timestamp = ts,
                m_type = ty, m_publicKey = Some pub,
                m_fingerprint = Some (take 4 (bytesToHex (sha256 pf kb))), m_verified = True\<rparr>"
    by (rule verifyPayload_signed[OF ne btoa_nonempty[OF sne] kb vs])
  then show ?thesis using c by simp
qed


lemma sample_identity_key_decodes: "base64ToBytes sample_identity_key = Inr [1, 2, 3]"
  by code_simp


lemma sample_valid_key_pair:
  "valid_key_pair sample_platform sample_identity_key sample_identity_key"
proof -
  have "sample_identity_key \<noteq> []" by (simp add: sample_identity_key_def)
  moreover have "importPrivateKey sample_platform sample_identity_key = Inr [1, 2, 3]"
    "importPublicKey sample_platform sample_identity_key = Inr [1, 2, 3]"
    by (simp_all add: importPrivateKey_def importPublicKey_def sample_identity_key_decodes
        sample_platform_def)
  moreover have "\<forall>rnd data. \<exists>sig. ecdsa_sign sample_platform [1, 2, 3] rnd data = Inr sig
      \<and> length sig = 64 \<and> ecdsa_verify sample_platform [1, 2, 3] sig data = Inr True"
    by (simp add: sample_platform_def sample_signature_def)
  ultimately show ?thesis unfolding valid_key_pair_def by blast
qed


subsection \<open>Room links\<close>

lemma dropWhile_append_stop:
  "\<not> P y \<Longrightarrow> dropWhile P (xs @ y # ys) = dropWhile P xs @ y # ys"
  by (induction xs) auto

lemma rev_dropWhile_rev_last:
  "xs \<noteq> [] \<Longrightarrow> \<not> P (last xs) \<Longrightarrow> rev (dropWhile P (rev xs)) = xs"
  by (cases xs rule: rev_cases) auto

lemma takeWhile_all: "x \<notin> set xs \<Longrightarrow> takeWhile (\<lambda>c. c \<noteq> x) xs = xs"
  by (induction xs) auto

lemma dropWhile_all: "x \<notin> set xs \<Longrightarrow> dropWhile (\<lambda>c. c \<noteq> x) xs = []"
  by (induction xs) auto

lemma fragment_safe_props:
  assumes "fragment_safe c"
  shows "\<not> is_c0_or_space c" "\<not> is_tab_or_newline c" "\<not> is_line_terminator c"
  using assms
  by (auto simp: fragment_safe_def in_fragment_encode_set_def is_c0_or_space_def
      is_tab_or_newline_def is_line_terminator_def)

lemma fragment_encode_safe: "list_all fragment_safe f \<Longrightarrow> fragment_encode f = f"
  by (induction f) (auto simp: fragment_encode_def fragment_safe_def)

lemma hex_digits_safe:
  "list_all (\<lambda>c. fragment_safe c \<and> c \<noteq> CHR ''#'' \<and> c \<noteq> CHR ''/'') hex_digits"
  by (simp add: hex_digits_def fragment_safe_def in_fragment_encode_set_def)

lemma is_lower_hex_safe:
  assumes "is_lower_hex c"
  shows "fragment_safe c" "c \<noteq> CHR ''#''" "c \<noteq> CHR ''/''"
  using assms hex_digits_safe unfolding is_lower_hex_def list_all_iff by blast+

lemma chat_prefix_safe: "list_all fragment_safe ''/chat/''" "fragment_safe CHR ''/''"
  by (simp_all add: fragment_safe_def in_fragment_encode_set_def)

lemma match_hash_built:
  assumes "length rid = 32" and "list_all is_lower_hex rid" and "key \<noteq> []"
    and "list_all (\<lambda>c. \<not> is_line_terminator c) key"
  shows "match_hash (''#/chat/'' @ rid @ ''/'' @ key) = Some (rid, key)"
  using assms by (simp add: match_hash_def)

lemma not_c0_slash: "\<not> is_c0_or_space CHR ''/''" "\<not> is_tab_or_newline CHR ''/''"
  "\<not> is_tab_or_newline CHR ''#''"
  by (simp_all add: is_c0_or_space_def is_tab_or_newline_def)

lemma hash_notin_prefix:
  "CHR ''#'' \<notin> set origin \<Longrightarrow> CHR ''#'' \<notin> set (url_prefix origin)"
  using set_dropWhileD[of "CHR ''#''" is_c0_or_space origin] by (auto simp: url_prefix_def)

lemma URL_new_link:
  assumes nh: "CHR ''#'' \<notin> set origin" and ne: "F \<noteq> []" and safe: "list_all fragment_safe F"
  shows "URL_new P (origin @ ''/#'' @ F) =
          (case scheme_of (url_prefix origin) of
             None \<Rightarrow> Inl TypeError
           | Some sr \<Rightarrow>
               (case P (fst sr) (snd sr) of
                  Inl e \<Rightarrow> Inl e
                | Inr path \<Rightarrow> Inr \<lparr>u_pathname = path, u_hash = CHR ''#'' # F\<rparr>))"
proof -
  let ?o1 = "dropWhile is_c0_or_space origin"
  let ?input = "origin @ ''/#'' @ F"
  have d: "dropWhile is_c0_or_space ?input = ?o1 @ ''/#'' @ F"
    using dropWhile_append_stop[of is_c0_or_space "CHR ''/''" origin "CHR ''#'' # F"]
    by (simp add: not_c0_slash)
  have "last (?o1 @ ''/#'' @ F) = last F" using ne by simp
  moreover have "\<not> is_c0_or_space (last F)"
    using ne safe fragment_safe_props(1) last_in_set[OF ne] by (auto simp: list_all_iff)
  ultimately have s1: "rev (dropWhile is_c0_or_space (rev (?o1 @ ''/#'' @ F))) = ?o1 @ ''/#'' @ F"
    by (intro rev_dropWhile_rev_last) simp_all
  have fF: "filter (\<lambda>c. \<not> is_tab_or_newline c) F = F"
    using safe fragment_safe_props(2) by (auto simp: list_all_iff filter_id_conv)
  have s2: "filter (\<lambda>c. \<not> is_tab_or_newline c) (?o1 @ ''/#'' @ F) = url_prefix origin @ CHR ''#'' # F"
    by (simp add: url_prefix_def fF not_c0_slash)
  have pre: "takeWhile (\<lambda>c. c \<noteq> CHR ''#'') (url_prefix origin @ CHR ''#'' # F) = url_prefix origin"
    by (rule takeWhile_until[OF hash_notin_prefix[OF nh]])
  have frag: "drop 1 (dropWhile (\<lambda>c. c \<noteq> CHR ''#'') (url_prefix origin @ CHR ''#'' # F)) = F"
    by (simp add: dropWhile_until[OF hash_notin_prefix[OF nh]])
  show ?thesis
    unfolding URL_new_def Let_def d s1 s2 pre frag fragment_encode_safe[OF safe]
    using ne by simp
qed

lemma URL_new_origin:
  assumes nh: "CHR ''#'' \<notin> set origin"
  shows "URL_new P (origin @ ''/'') =
          (case scheme_of (url_prefix origin) of
             None \<Rightarrow> Inl TypeError
           | Some sr \<Rightarrow>
               (case P (fst sr) (snd sr) of
                  Inl e \<Rightarrow> Inl e
                | Inr path \<Rightarrow> Inr \<lparr>u_pathname = path, u_hash = []\<rparr>))"
proof -
  let ?o1 = "dropWhile is_c0_or_space origin"
  have d: "dropWhile is_c0_or_space (origin @ ''/'') = ?o1 @ ''/''"
    using dropWhile_append_stop[of is_c0_or_space "CHR ''/''" origin "[]"]
    by (simp add: not_c0_slash)
  have s1: "rev (dropWhile is_c0_or_space (rev (?o1 @ ''/''))) = ?o1 @ ''/''"
    by (intro rev_dropWhile_rev_last) (simp_all add: not_c0_slash)
  have s2: "filter (\<lambda>c. \<not> is_tab_or_newline c) (?o1 @ ''/'') = url_prefix origin"
    by (simp add: url_prefix_def not_c0_slash)
  have pre: "takeWhile (\<lambda>c. c \<noteq> CHR ''#'') (url_prefix origin) = url_prefix origin"
    by (rule takeWhile_all[OF hash_notin_prefix[OF nh]])
  have frag: "drop 1 (dropWhile (\<lambda>c. c \<noteq> CHR ''#'') (url_prefix origin)) = []"
    by (simp add: dropWhile_all[OF hash_notin_prefix[OF nh]])
  show ?thesis
    unfolding URL_new_def Let_def d s1 s2 pre frag by simp
qed

lemma parseUrl_buildUrl:
  assumes ok: "URL_new P (origin @ ''/'') = Inr u" and nh: "CHR ''#'' \<notin> set origin"
    and len: "length rid = 32" and hex: "list_all is_lower_hex rid"
    and kne: "key \<noteq> []" and ksafe: "list_all fragment_safe key"
  shows "parseUrl (URL_new P) (buildUrl origin rid key)
         = Some \<lparr>c_roomId = rid, c_secretKey = key\<rparr>"
proof -
  let ?F = "''/chat/'' @ rid @ ''/'' @ key"
  have rsafe: "list_all fragment_safe rid"
    using hex is_lower_hex_safe(1) by (auto simp: list_all_iff)
  have safe: "list_all fragment_safe ?F"
    using rsafe ksafe chat_prefix_safe by simp
  have link: "buildUrl origin rid key = origin @ ''/#'' @ ?F"
    by (simp add: buildUrl_def)
  obtain sr path where sr: "scheme_of (url_prefix origin) = Some sr"
    and path: "P (fst sr) (snd sr) = Inr path"
    using ok unfolding URL_new_origin[OF nh] by (auto split: option.splits sum.splits)
  have parsed: "URL_new P (buildUrl origin rid key)
                = Inr \<lparr>u_pathname = path, u_hash = ''#/chat/'' @ rid @ ''/'' @ key\<rparr>"
    unfolding link using URL_new_link[OF nh _ safe, of P] sr path by simp
  have nlt: "list_all (\<lambda>c. \<not> is_line_terminator c) key"
    using ksafe fragment_safe_props(3) by (auto simp: list_all_iff)
  have mh: "match_hash (u_hash \<lparr>u_pathname = path, u_hash = ''#/chat/'' @ rid @ ''/'' @ key\<rparr>)
            = Some (rid, key)"
    using match_hash_built[OF len hex kne nlt] by simp
  show ?thesis
    unfolding parseUrl_def parsed by (simp only: sum.case mh option.case fst_conv snd_conv)
qed

lemma slash_not_lower_hex: "\<not> is_lower_hex CHR ''/''"
  by (simp add: is_lower_hex_def hex_digits_def)

lemma match_hash_bad_roomId:
  assumes ns: "CHR ''/'' \<notin> set rid" and bad: "\<not> (length rid = 32 \<and> list_all is_lower_hex rid)"
  shows "match_hash (''#/chat/'' @ rid @ ''/'' @ key) = None"
proof -
  let ?r = "rid @ ''/'' @ key"
  have "\<not> (length (take 32 ?r) = 32 \<and> list_all is_lower_hex (take 32 ?r)
            \<and> take 1 (drop 32 ?r) = ''/'')"
  proof
    assume a: "length (take 32 ?r) = 32 \<and> list_all is_lower_hex (take 32 ?r)
            \<and> take 1 (drop 32 ?r) = ''/''"
    consider "length rid < 32" | "length rid = 32" | "length rid > 32" by linarith
    then show False
    proof cases
      case 1
      then have t: "take 32 ?r = rid @ take (32 - length rid) (CHR ''/'' # key)" by simp
      have "32 - length rid \<noteq> 0" using 1 by simp
      then have "CHR ''/'' \<in> set (take (32 - length rid) (CHR ''/'' # key))"
        by (simp add: take_Cons')
      then have "CHR ''/'' \<in> set (take 32 ?r)" unfolding t by simp
      then show False using a slash_not_lower_hex by (auto simp: list_all_iff)
    next
      case 2
      then have "take 32 ?r = rid" by simp
      then show False using a bad 2 by simp
    next
      case 3
      then have "drop 32 ?r = drop 32 rid @ ''/'' @ key" by simp
      moreover have "drop 32 rid \<noteq> []" using 3 by simp
      ultimately have "take 1 (drop 32 ?r) = take 1 (drop 32 rid)"
        by (cases "drop 32 rid") simp_all
      moreover have "take 1 (drop 32 ?r) = ''/''" using a by blast
      ultimately have "take 1 (drop 32 rid) = ''/''" by metis
      then have "CHR ''/'' \<in> set (take 1 (drop 32 rid))" by simp
      then have "CHR ''/'' \<in> set rid" by (meson in_set_dropD in_set_takeD)
      then show False using ns by simp
    qed
  qed
  then show ?thesis by (auto simp: match_hash_def)
qed

lemma match_hash_no_key:
  assumes "length rid = 32" and "list_all is_lower_hex rid"
  shows "match_hash (''#/chat/'' @ rid) = None" "match_hash (''#/chat/'' @ rid @ ''/'') = None"
  using assms by (simp_all add: match_hash_def)

lemma match_hash_Nil: "match_hash [] = None"
  by (simp add: match_hash_def)

lemma parseUrl_no_match:
  "URL_ctor link = Inr u \<Longrightarrow> match_hash (u_hash u) = None \<Longrightarrow>
   match_path (u_pathname u) = None \<Longrightarrow> parseUrl URL_ctor link = None"
  by (simp add: parseUrl_def)

lemma parseUrl_no_hash:
  "URL_ctor link = Inr u \<Longrightarrow> u_hash u = [] \<Longrightarrow> parseUrl URL_ctor link = None"
  by (simp add: parseUrl_def match_hash_Nil split: option.splits)

lemma parseUrl_invalid: "URL_ctor link = Inl e \<Longrightarrow> parseUrl URL_ctor link = None"
  by (simp add: parseUrl_def)

lemma parseUrl_legacy_long_roomId:
  "parseUrl (URL_new sample_after_scheme)
     ''https://fogchan.example/chat/0123456789abcdef0123456789abcdef01#k''
   = Some \<lparr>c_roomId = ''0123456789abcdef0123456789abcdef'', c_secretKey = ''k''\<rparr>"
  by code_simp

subsection \<open>Claims about the codecs\<close>

text \<open>
  The codecs round-trip as far as the encoders return: the hex codec for every byte
  sequence, the two base64 codecs for every byte sequence that has no more bytes than
  the engine accepts arguments.
\<close>

lemma codec_round_trip_within_limit:
  "hexToBytes (bytesToHex x) = x
   \<and> (length x \<le> n \<longrightarrow>
        (\<exists>s. bytesToBase64 n x = Inr s \<and> base64ToBytes s = Inr x)
      \<and> (\<exists>s. bytesToBase64Url n x = Inr s \<and> base64UrlToBytes s = Inr x))"
  using base64UrlToBytes_bytesToBase64Url[OF bytesToBase64Url_ok, of x n]
  by (simp add: hexToBytes_bytesToHex bytesToBase64_ok base64ToBytes_btoa bytesToBase64Url_ok)

text \<open>
  Claim C7 (codec round-trip) says that decoding the base64 encoding of every byte
  sequence gives the sequence back. \<open>bytesToBase64\<close> and \<open>bytesToBase64Url\<close> build the
  binary string with \<open>String.fromCharCode(...bytes)\<close>, one argument per byte, and that
  call throws a \<open>RangeError\<close> once the array is longer than the engine's argument limit.
  For an array of 200000 zero bytes, in an engine that accepts 65536 arguments, both
  encoders throw, so there is nothing to decode.
\<close>

theorem bytesToBase64_long_input_throws:
  "length sample_long_bytes = 200000
   \<and> max_arguments sample_platform = 65536
   \<and> bytesToBase64 (max_arguments sample_platform) sample_long_bytes = Inl RangeError
   \<and> bytesToBase64Url (max_arguments sample_platform) sample_long_bytes = Inl RangeError"
proof -
  have l: "length sample_long_bytes = 200000"
    unfolding sample_long_bytes_def by (rule length_replicate)
  have m: "max_arguments sample_platform = 65536"
    by (simp add: sample_platform_def)
  have "max_arguments sample_platform < length sample_long_bytes"
    by (simp add: l m)
  then show ?thesis
    using l m by (simp add: bytesToBase64_too_long bytesToBase64Url_too_long)
qed

text \<open>
  Claim C4 says that \<open>hexToBytes\<close> fails on an odd-length or non-hex input. It does not:
  the function has no check and no statement that throws. On \<open>abc\<close> it returns the single
  byte of \<open>ab\<close>, and on \<open>zz\<close> it returns a zero byte.
\<close>

theorem hexToBytes_malformed_counterexample:
  "hexToBytes ''abc'' = [0xAB] \<and> hexToBytes ''zz'' = [0]"
proof -
  have "hexToBytes ''abc'' = hexToBytes ''ab''"
    using hexToBytes_drop_odd[of "''ab''" "CHR ''c''"] by simp
  moreover have "parseInt16 ''ab'' = Some 171"
    by (simp add: parseInt16_def Let_def is_js_whitespace_def is_hex_digit_def hex_digit_value_def
        hex_digits_def digit_val_def)
  moreover have "parseInt16 ''zz'' = None"
    by (rule parseInt16_no_digit)
       (simp_all add: is_js_whitespace_def is_hex_digit_def hex_digit_value_def hex_digits_def)
  ultimately show ?thesis by (simp add: hexToBytes_pair ToUint8_def)
qed

text \<open>
  Claim C4 as amended: \<open>hexToBytes\<close> does not validate its input and returns a value for
  every string. The result has \<open>\<lfloor>length / 2\<rfloor>\<close> bytes; byte \<open>k\<close> is \<open>parseInt\<close> of the
  characters \<open>2k\<close> and \<open>2k + 1\<close> as stored into a \<open>Uint8Array\<close>; the last character of
  an odd-length input is dropped; and a pair whose first character is neither white space,
  a sign nor a hex digit gives the byte 0.
\<close>

theorem hexToBytes_never_fails:
  "length (hexToBytes hex) = length hex div 2
   \<and> (\<forall>k < length hex div 2.
         hexToBytes hex ! k = ToUint8 (parseInt16 (substring hex (2 * k) (2 * k + 2))))
   \<and> (even (length hex) \<longrightarrow> hexToBytes (hex @ [c]) = hexToBytes hex)
   \<and> (\<not> is_js_whitespace a \<and> a \<noteq> CHR ''-'' \<and> a \<noteq> CHR ''+'' \<and> \<not> is_hex_digit a
        \<longrightarrow> hexToBytes [a, b] = [0])"
proof -
  have 1: "length (hexToBytes hex) = length hex div 2"
    by (simp add: hexToBytes_groups)
  have 2: "\<forall>k < length hex div 2.
         hexToBytes hex ! k = ToUint8 (parseInt16 (substring hex (2 * k) (2 * k + 2)))"
    by (simp add: hexToBytes_groups hex_group_def)
  have 3: "even (length hex) \<longrightarrow> hexToBytes (hex @ [c]) = hexToBytes hex"
    using hexToBytes_drop_odd by blast
  have 4: "\<not> is_js_whitespace a \<and> a \<noteq> CHR ''-'' \<and> a \<noteq> CHR ''+'' \<and> \<not> is_hex_digit a
        \<longrightarrow> hexToBytes [a, b] = [0]"
    using parseInt16_no_digit[of a b] by (simp add: hexToBytes_pair ToUint8_def)
  show ?thesis using 1 2 3 4 by blast
qed

text \<open>Claim C4 as amended, at the inputs \<open>abcde\<close> and \<open>z1\<close>.\<close>

theorem hexToBytes_never_fails_witness:
  "length (hexToBytes ''abcde'') = 2
   \<and> even (length ''abcd'') \<and> hexToBytes (''abcd'' @ ''e'') = hexToBytes ''abcd''
   \<and> \<not> is_js_whitespace CHR ''z'' \<and> \<not> is_hex_digit CHR ''z'' \<and> hexToBytes ''z1'' = [0]"
proof -
  have z: "\<not> is_js_whitespace CHR ''z''" "\<not> is_hex_digit CHR ''z''"
    by (simp_all add: is_js_whitespace_def is_hex_digit_def hex_digit_value_def hex_digits_def)
  show ?thesis
    using hexToBytes_never_fails[of "''abcd''" "CHR ''e''" "CHR ''z''" "CHR ''1''"]
      hexToBytes_never_fails[of "''abcde''" "CHR ''e''" "CHR ''z''" "CHR ''1''"] z
    by simp
qed

subsection \<open>Claims about payload encryption\<close>

text \<open>
  Claim C6 (encryption round-trip) says that \<open>decrypt\<close> recovers every payload from what
  \<open>encrypt\<close> returns. \<open>encrypt\<close> encodes the whole ciphertext with \<open>bytesToBase64\<close>, that
  is with \<open>String.fromCharCode(...bytes)\<close>, so for a payload whose ciphertext is longer
  than the engine's argument limit it throws a \<open>RangeError\<close> and returns nothing to
  decrypt. On the sample platform (65536 arguments), with a 256-bit key and a content of
  200000 characters, \<open>encrypt\<close> throws. Within the limit the round trip holds
  (\<open>decrypt_encrypt\<close>).
\<close>

theorem encrypt_long_payload_throws:
  "base64UrlToBytes sample_secret = Inr sample_key_bytes
   \<and> length sample_key_bytes = 32
   \<and> length sample_nonce = 12
   \<and> length sample_long_text = 200000
   \<and> encrypt sample_platform
        \<lparr>p_sender = ''Alice'', p_content = sample_long_text, p_type = Text,
         p_publicKey = None, p_signature = None\<rparr> sample_secret sample_nonce
      = Inl RangeError"
proof -
  have l: "length sample_long_text = 200000"
    unfolding sample_long_text_def by (rule length_replicate)
  have "max_arguments sample_platform
        < length (text_encode sample_platform (json_stringify sample_platform
            \<lparr>p_sender = ''Alice'', p_content = sample_long_text, p_type = Text,
             p_publicKey = None, p_signature = None\<rparr>)) + 16"
    by (simp add: sample_platform_def l)
  then have "encrypt sample_platform
        \<lparr>p_sender = ''Alice'', p_content = sample_long_text, p_type = Text,
         p_publicKey = None, p_signature = None\<rparr> sample_secret sample_nonce
      = Inl RangeError"
    by (rule encrypt_too_long[OF sample_aes_gcm sample_secret_decodes sample_lengths])
  then show ?thesis
    using l sample_secret_decodes sample_lengths by simp
qed

subsection \<open>Claims about the session\<close>

text \<open>
  Claim C9 (dedup and high-water mark of poll processing). For a message of a poll
  cycle: if its id is in \<open>seenIds\<close>, nothing is emitted and the state is unchanged;
  otherwise exactly one event is appended (a \<open>message\<close> event when decryption succeeds,
  the \<open>decrypt_error\<close> event of the id when it fails), the id is added to \<open>seenIds\<close>
  and \<open>lastTimestamp\<close> becomes the maximum of its old value and the message's timestamp.
  Two messages with the same unseen id give exactly one \<open>message\<close> event; a cycle emits
  one event per distinct unseen id; and \<open>lastTimestamp\<close> never decreases.

  For the whole loop: the session it leaves differs from the one it started with only in
  \<open>seenIds\<close>, which has gained the id of every message of the response, and in
  \<open>lastTimestamp\<close>, which is the maximum of its old value and the timestamps of the
  messages that were processed; the events are those of the processed messages, in
  order. The processed messages are those whose id was not seen before, in an earlier
  cycle or earlier in the response. A poll whose response is a success carrying the
  messages returns what the loop leaves.
\<close>

theorem poll_dedup_high_water_mark:
  "(em_id msg \<in> seenIds s \<longrightarrow> poll_message pf (s, evs) msg = (s, evs))
   \<and> (em_id msg \<notin> seenIds s \<longrightarrow>
        (\<exists>ev. snd (poll_message pf (s, evs) msg) = evs @ [ev]
           \<and> (case decrypt pf (em_ciphertext msg) (em_iv msg) (s_secretKey s) of
                 Inr pl \<Rightarrow> is_message_event ev
               | Inl e \<Rightarrow> ev = DecryptErrorEvent (em_id msg) e))
        \<and> seenIds (fst (poll_message pf (s, evs) msg)) = insert (em_id msg) (seenIds s)
        \<and> lastTimestamp (fst (poll_message pf (s, evs) msg))
            = max (lastTimestamp s) (em_timestamp msg))
   \<and> (em_id msg \<notin> seenIds s \<and> em_id msg' = em_id msg
        \<and> decrypt pf (em_ciphertext msg) (em_iv msg) (s_secretKey s) = Inr pl \<longrightarrow>
        length (filter is_message_event (snd (poll_messages pf s [msg, msg']))) = 1)
   \<and> length (snd (poll_messages pf s msgs)) = card (em_id ` set msgs - seenIds s)
   \<and> lastTimestamp s \<le> lastTimestamp (fst (poll_messages pf s msgs))
   \<and> fst (poll_messages pf s msgs)
       = s\<lparr>seenIds := seenIds s \<union> em_id ` set msgs,
           lastTimestamp := Max (insert (lastTimestamp s)
                                  (em_timestamp ` set (fresh_messages (seenIds s) msgs)))\<rparr>
   \<and> snd (poll_messages pf s msgs)
       = map (message_event_of pf s) (fresh_messages (seenIds s) msgs)
   \<and> (net (GET_messages (s_roomId s) (lastTimestamp s)) = Inr resp \<and> r_ok resp
        \<and> r_json resp = Inr (MessagesBody msgs n) \<longrightarrow>
        Session_poll pf s net = (Inr (), poll_messages pf s msgs))"
proof -
  have 1: "em_id msg \<in> seenIds s \<longrightarrow> poll_message pf (s, evs) msg = (s, evs)"
    by (simp add: poll_message_seen)
  have 2: "em_id msg \<notin> seenIds s \<longrightarrow>
        (\<exists>ev. snd (poll_message pf (s, evs) msg) = evs @ [ev]
           \<and> (case decrypt pf (em_ciphertext msg) (em_iv msg) (s_secretKey s) of
                 Inr pl \<Rightarrow> is_message_event ev
               | Inl e \<Rightarrow> ev = DecryptErrorEvent (em_id msg) e))
        \<and> seenIds (fst (poll_message pf (s, evs) msg)) = insert (em_id msg) (seenIds s)
        \<and> lastTimestamp (fst (poll_message pf (s, evs) msg))
            = max (lastTimestamp s) (em_timestamp msg)"
  proof
    assume new: "em_id msg \<notin> seenIds s"
    have "case decrypt pf (em_ciphertext msg) (em_iv msg) (s_secretKey s) of
                 Inr pl \<Rightarrow> is_message_event (message_event_of pf s msg)
               | Inl e \<Rightarrow> message_event_of pf s msg = DecryptErrorEvent (em_id msg) e"
      by (simp add: message_event_of_def is_message_event_def split: sum.splits)
    then show "(\<exists>ev. snd (poll_message pf (s, evs) msg) = evs @ [ev]
           \<and> (case decrypt pf (em_ciphertext msg) (em_iv msg) (s_secretKey s) of
                 Inr pl \<Rightarrow> is_message_event ev
               | Inl e \<Rightarrow> ev = DecryptErrorEvent (em_id msg) e))
        \<and> seenIds (fst (poll_message pf (s, evs) msg)) = insert (em_id msg) (seenIds s)
        \<and> lastTimestamp (fst (poll_message pf (s, evs) msg))
            = max (lastTimestamp s) (em_timestamp msg)"
      using new by (simp add: poll_message_new)
  qed
  have 3: "em_id msg \<notin> seenIds s \<and> em_id msg' = em_id msg
        \<and> decrypt pf (em_ciphertext msg) (em_iv msg) (s_secretKey s) = Inr pl \<longrightarrow>
        length (filter is_message_event (snd (poll_messages pf s [msg, msg']))) = 1"
    by (simp add: poll_messages_same_id_twice is_message_event_of)
  have 4: "length (snd (poll_messages pf s msgs)) = card (em_id ` set msgs - seenIds s)"
    using foldl_poll_message_count[of pf "(s, [])" msgs] by (simp add: poll_messages_def)
  have 5: "lastTimestamp s \<le> lastTimestamp (fst (poll_messages pf s msgs))"
    using foldl_poll_message_lastTimestamp[of "(s, [])" pf msgs] by (simp add: poll_messages_def)
  have 6: "fst (poll_messages pf s msgs)
       = s\<lparr>seenIds := seenIds s \<union> em_id ` set msgs,
           lastTimestamp := Max (insert (lastTimestamp s)
                                  (em_timestamp ` set (fresh_messages (seenIds s) msgs)))\<rparr>"
    by (simp only: poll_messages_fresh fst_conv)
  have 7: "snd (poll_messages pf s msgs)
       = map (message_event_of pf s) (fresh_messages (seenIds s) msgs)"
    by (simp only: poll_messages_fresh snd_conv)
  have 8: "net (GET_messages (s_roomId s) (lastTimestamp s)) = Inr resp \<and> r_ok resp
        \<and> r_json resp = Inr (MessagesBody msgs n) \<longrightarrow>
        Session_poll pf s net = (Inr (), poll_messages pf s msgs)"
    using Session_poll_ok[of net s resp msgs n pf] by blast
  show ?thesis using 1 2 3 4 5 6 7 8 by (intro conjI)
qed

text \<open>
  Claim C9 on the sample session, which has seen \<open>a\<close> and \<open>b\<close> and has
  \<open>lastTimestamp = 100\<close>: a message with id \<open>a\<close> is skipped, and a decryptable message
  with id \<open>c\<close> and timestamp 200, fed twice, gives one \<open>message\<close> event. A poll that
  is answered with the seen message and twice the new one leaves \<open>a\<close>, \<open>b\<close> and \<open>c\<close> in
  \<open>seenIds\<close>, a \<open>lastTimestamp\<close> of 200, and has emitted one event.
\<close>

theorem poll_dedup_high_water_mark_witness:
  "\<exists>r :: encrypt_result. ''a'' \<in> seenIds sample_session
      \<and> poll_message sample_platform (sample_session, [])
           \<lparr>em_id = ''a'', em_ciphertext = er_ciphertext r, em_iv = er_iv r, em_timestamp = 200\<rparr>
          = (sample_session, [])
      \<and> ''c'' \<notin> seenIds sample_session
      \<and> decrypt sample_platform (er_ciphertext r) (er_iv r) (s_secretKey sample_session)
          = Inr \<lparr>p_sender = ''Alice'', p_content = ''hi'', p_type = Text, p_publicKey = None, p_signature = None\<rparr>
      \<and> length (filter is_message_event (snd (poll_messages sample_platform sample_session
           [\<lparr>em_id = ''c'', em_ciphertext = er_ciphertext r, em_iv = er_iv r, em_timestamp = 200\<rparr>,
            \<lparr>em_id = ''c'', em_ciphertext = er_ciphertext r, em_iv = er_iv r, em_timestamp = 200\<rparr>]))) = 1
      \<and> seenIds (fst (poll_message sample_platform (sample_session, [])
           \<lparr>em_id = ''c'', em_ciphertext = er_ciphertext r, em_iv = er_iv r, em_timestamp = 200\<rparr>))
          = {''a'', ''b'', ''c''}
      \<and> lastTimestamp (fst (poll_message sample_platform (sample_session, [])
           \<lparr>em_id = ''c'', em_ciphertext = er_ciphertext r, em_iv = er_iv r, em_timestamp = 200\<rparr>)) = 200
      \<and> r_ok \<lparr>r_ok = True, r_json = Inr (MessagesBody
           [\<lparr>em_id = ''a'', em_ciphertext = er_ciphertext r, em_iv = er_iv r, em_timestamp = 200\<rparr>,
            \<lparr>em_id = ''c'', em_ciphertext = er_ciphertext r, em_iv = er_iv r, em_timestamp = 200\<rparr>,
            \<lparr>em_id = ''c'', em_ciphertext = er_ciphertext r, em_iv = er_iv r, em_timestamp = 200\<rparr>] 3)\<rparr>
      \<and> fst (Session_poll sample_platform sample_session (net_const (Inr
           \<lparr>r_ok = True, r_json = Inr (MessagesBody
           [\<lparr>em_id = ''a'', em_ciphertext = er_ciphertext r, em_iv = er_iv r, em_timestamp = 200\<rparr>,
            \<lparr>em_id = ''c'', em_ciphertext = er_ciphertext r, em_iv = er_iv r, em_timestamp = 200\<rparr>,
            \<lparr>em_id = ''c'', em_ciphertext = er_ciphertext r, em_iv = er_iv r, em_timestamp = 200\<rparr>] 3)\<rparr>)))
          = Inr ()
      \<and> seenIds (fst (snd (Session_poll sample_platform sample_session (net_const (Inr
           \<lparr>r_ok = True, r_json = Inr (MessagesBody
           [\<lparr>em_id = ''a'', em_ciphertext = er_ciphertext r, em_iv = er_iv r, em_timestamp = 200\<rparr>,
            \<lparr>em_id = ''c'', em_ciphertext = er_ciphertext r, em_iv = er_iv r, em_timestamp = 200\<rparr>,
            \<lparr>em_id = ''c'', em_ciphertext = er_ciphertext r, em_iv = er_iv r, em_timestamp = 200\<rparr>] 3)\<rparr>)))))
          = {''a'', ''b'', ''c''}
      \<and> lastTimestamp (fst (snd (Session_poll sample_platform sample_session (net_const (Inr
           \<lparr>r_ok = True, r_json = Inr (MessagesBody
           [\<lparr>em_id = ''a'', em_ciphertext = er_ciphertext r, em_iv = er_iv r, em_timestamp = 200\<rparr>,
            \<lparr>em_id = ''c'', em_ciphertext = er_ciphertext r, em_iv = er_iv r, em_timestamp = 200\<rparr>,
            \<lparr>em_id = ''c'', em_ciphertext = er_ciphertext r, em_iv = er_iv r, em_timestamp = 200\<rparr>] 3)\<rparr>)))))
          = 200
      \<and> length (snd (snd (Session_poll sample_platform sample_session (net_const (Inr
           \<lparr>r_ok = True, r_json = Inr (MessagesBody
           [\<lparr>em_id = ''a'', em_ciphertext = er_ciphertext r, em_iv = er_iv r, em_timestamp = 200\<rparr>,
            \<lparr>em_id = ''c'', em_ciphertext = er_ciphertext r, em_iv = er_iv r, em_timestamp = 200\<rparr>,
            \<lparr>em_id = ''c'', em_ciphertext = er_ciphertext r, em_iv = er_iv r, em_timestamp = 200\<rparr>] 3)\<rparr>)))))
          = 1"
proof -
  let ?pl = "\<lparr>p_sender = ''Alice'', p_content = ''hi'', p_type = Text, p_publicKey = None, p_signature = None\<rparr>"
  obtain r :: encrypt_result where
    d: "decrypt sample_platform (er_ciphertext r) (er_iv r) sample_secret = Inr ?pl"
    using sample_encrypt_decrypt by blast
  let ?seen = "\<lparr>em_id = ''a'', em_ciphertext = er_ciphertext r, em_iv = er_iv r, em_timestamp = 200\<rparr>"
  let ?new = "\<lparr>em_id = ''c'', em_ciphertext = er_ciphertext r, em_iv = er_iv r, em_timestamp = 200\<rparr>"
  let ?resp = "\<lparr>r_ok = True, r_json = Inr (MessagesBody [?seen, ?new, ?new] 3)\<rparr>"
  have a: "em_id ?seen \<in> seenIds sample_session" "em_id ?new \<notin> seenIds sample_session"
    by (simp_all add: sample_session_fields)
  have d': "decrypt sample_platform (em_ciphertext ?new) (em_iv ?new) (s_secretKey sample_session) = Inr ?pl"
    using d by (simp add: sample_session_fields)
  note seen = poll_dedup_high_water_mark[where msg = ?seen and s = sample_session
      and pf = sample_platform and evs = "[]" and msg' = ?seen and pl = ?pl and msgs = "[]"]
  note new = poll_dedup_high_water_mark[where msg = ?new and s = sample_session
      and pf = sample_platform and evs = "[]" and msg' = ?new and pl = ?pl and msgs = "[]"]
  note cyc = poll_dedup_high_water_mark[where msg = ?new and s = sample_session
      and pf = sample_platform and evs = "[]" and msg' = ?new and pl = ?pl
      and msgs = "[?seen, ?new, ?new]" and net = "net_const (Inr ?resp)" and resp = ?resp
      and n = 3]
  have 1: "poll_message sample_platform (sample_session, []) ?seen = (sample_session, [])"
    using seen a(1) by blast
  have 2: "length (filter is_message_event (snd (poll_messages sample_platform sample_session [?new, ?new]))) = 1"
    using new a(2) d' by blast
  have 3: "seenIds (fst (poll_message sample_platform (sample_session, []) ?new)) = {''a'', ''b'', ''c''}"
    "lastTimestamp (fst (poll_message sample_platform (sample_session, []) ?new)) = 200"
    using new a(2) by (auto simp: sample_session_fields)
  have rq: "net_const (Inr ?resp) (GET_messages (s_roomId sample_session) (lastTimestamp sample_session))
            = Inr ?resp \<and> r_ok ?resp \<and> r_json ?resp = Inr (MessagesBody [?seen, ?new, ?new] 3)"
    by (simp add: net_const_def)
  have p: "Session_poll sample_platform sample_session (net_const (Inr ?resp))
           = (Inr (), poll_messages sample_platform sample_session [?seen, ?new, ?new])"
    using cyc rq by blast
  have f: "fst (poll_messages sample_platform sample_session [?seen, ?new, ?new])
           = sample_session\<lparr>seenIds := seenIds sample_session \<union> em_id ` set [?seen, ?new, ?new],
               lastTimestamp := Max (insert (lastTimestamp sample_session)
                  (em_timestamp ` set (fresh_messages (seenIds sample_session) [?seen, ?new, ?new])))\<rparr>"
    using cyc by blast
  have g: "snd (poll_messages sample_platform sample_session [?seen, ?new, ?new])
           = map (message_event_of sample_platform sample_session)
               (fresh_messages (seenIds sample_session) [?seen, ?new, ?new])"
    using cyc by blast
  have 4: "fst (Session_poll sample_platform sample_session (net_const (Inr ?resp))) = Inr ()"
    "seenIds (fst (snd (Session_poll sample_platform sample_session (net_const (Inr ?resp)))))
       = {''a'', ''b'', ''c''}"
    "lastTimestamp (fst (snd (Session_poll sample_platform sample_session (net_const (Inr ?resp)))))
       = 200"
    "length (snd (snd (Session_poll sample_platform sample_session (net_const (Inr ?resp))))) = 1"
    unfolding p by (auto simp: f g sample_session_fields)
  show ?thesis
    using a 1 2 3 4 d' by (intro exI[of _ r]) simp
qed

text \<open>
  Claim C2 says that a poll whose response has a non-success status emits an \<open>error\<close>
  event. The SDK's \<open>poll\<close> has the guard \<open>if (!response.ok) return;\<close>: on such a
  response it returns without emitting anything.
\<close>

theorem Session_poll_failed_status_counterexample:
  "Session_poll sample_platform sample_session
     (net_const (Inr \<lparr>r_ok = False, r_json = Inr (ErrorBody (Some ''Room not found''))\<rparr>))
   = (Inr (), sample_session, [])"
  by (rule Session_poll_not_ok[where resp = "\<lparr>r_ok = False, r_json = Inr (ErrorBody (Some ''Room not found''))\<rparr>"])
     (simp_all add: net_const_def)

text \<open>
  Claim C2 as amended. When \<open>fetch\<close> throws and a listener for \<open>error\<close> is registered,
  \<open>poll\<close> emits exactly one \<open>error\<close> event carrying what was thrown, and resolves. When
  \<open>fetch\<close> throws and no such listener is registered, \<open>emit\<close> throws in the \<open>catch\<close>
  block: \<open>poll\<close> rejects with what \<open>fetch\<close> threw and no event is delivered. When the
  response has a non-success status, \<open>poll\<close> resolves and emits nothing. In all three
  cases the session state (\<open>seenIds\<close>, \<open>lastTimestamp\<close>, the interval timer) is unchanged.
\<close>

theorem Session_poll_transport_failure:
  "(net (GET_messages (s_roomId s) (lastTimestamp s)) = Inl e \<and> has_error_listener s \<longrightarrow>
      Session_poll pf s net = (Inr (), s, [ErrorEvent e]))
   \<and> (net (GET_messages (s_roomId s) (lastTimestamp s)) = Inl e \<and> \<not> has_error_listener s \<longrightarrow>
      Session_poll pf s net = (Inl e, s, []))
   \<and> (net (GET_messages (s_roomId s) (lastTimestamp s)) = Inr resp \<and> \<not> r_ok resp \<longrightarrow>
      Session_poll pf s net = (Inr (), s, []))"
  using Session_poll_fetch_throws[of net s e pf] Session_poll_fetch_throws_unheard[of net s e pf]
    Session_poll_not_ok[of net s resp pf]
  by blast

text \<open>
  Claim C2 as amended, on the sample session, which has a listener for \<open>error\<close>, and on
  the same session without one: a network failure with and without the listener, and a
  response with a non-success status.
\<close>

theorem Session_poll_transport_failure_witness:
  "net_const (Inl TypeError) (GET_messages (s_roomId sample_session) (lastTimestamp sample_session))
     = Inl TypeError
   \<and> has_error_listener sample_session
   \<and> Session_poll sample_platform sample_session (net_const (Inl TypeError))
     = (Inr (), sample_session, [ErrorEvent TypeError])
   \<and> \<not> has_error_listener (sample_session\<lparr>has_error_listener := False\<rparr>)
   \<and> Session_poll sample_platform (sample_session\<lparr>has_error_listener := False\<rparr>)
        (net_const (Inl TypeError))
     = (Inl TypeError, sample_session\<lparr>has_error_listener := False\<rparr>, [])
   \<and> net_const (Inr \<lparr>r_ok = False, r_json = Inl SyntaxError\<rparr>)
        (GET_messages (s_roomId sample_session) (lastTimestamp sample_session))
     = Inr \<lparr>r_ok = False, r_json = Inl SyntaxError\<rparr>
   \<and> \<not> r_ok \<lparr>r_ok = False, r_json = Inl SyntaxError\<rparr>
   \<and> Session_poll sample_platform sample_session
        (net_const (Inr \<lparr>r_ok = False, r_json = Inl SyntaxError\<rparr>))
     = (Inr (), sample_session, [])"
  using Session_poll_transport_failure[where net = "net_const (Inl TypeError)"
      and s = sample_session and e = TypeError and pf = sample_platform]
    Session_poll_transport_failure[where net = "net_const (Inl TypeError)"
      and s = "sample_session\<lparr>has_error_listener := False\<rparr>" and e = TypeError
      and pf = sample_platform]
    Session_poll_transport_failure[where net = "net_const (Inr \<lparr>r_ok = False, r_json = Inl SyntaxError\<rparr>)"
      and s = sample_session and resp = "\<lparr>r_ok = False, r_json = Inl SyntaxError\<rparr>"
      and pf = sample_platform]
  by (simp add: net_const_def sample_session_fields)

text \<open>
  Claim C1 (clear reconciliation) does not hold for the SDK's \<open>Session.poll\<close>: it never
  reads \<open>messageCount\<close>. On a response with no messages and \<open>messageCount = 0\<close> the
  session is left as it was; the sample session keeps its two seen ids and its
  \<open>lastTimestamp\<close> of 100. The web client's \<open>poll\<close> does reset its state
  (\<open>chat_poll_clears\<close>).
\<close>

theorem Session_poll_ignores_messageCount:
  "Session_poll pf s (net_const (Inr \<lparr>r_ok = True, r_json = Inr (MessagesBody [] 0)\<rparr>)) = (Inr (), s, [])
   \<and> seenIds (fst (snd (Session_poll sample_platform sample_session
         (net_const (Inr \<lparr>r_ok = True, r_json = Inr (MessagesBody [] 0)\<rparr>))))) = {''a'', ''b''}
   \<and> lastTimestamp (fst (snd (Session_poll sample_platform sample_session
         (net_const (Inr \<lparr>r_ok = True, r_json = Inr (MessagesBody [] 0)\<rparr>))))) = 100"
  by (simp add: Session_poll_def Session_poll_try_def net_const_def poll_messages_def
      sample_session_fields)




subsection \<open>Claims about signatures\<close>




text \<open>
  Claim C10 (ambiguity of the signed string). The signature covers
  \<open>sender + ":" + content\<close>, so a payload signed for one pair verifies for every pair
  with the same concatenation; \<open>("a:b", "c")\<close> and \<open>("a", "b:c")\<close> are two such pairs.
  All that is asked of the key pair is that a signature has 64 bytes and verifies for
  the data that was signed.
\<close>

theorem signed_string_ambiguity:
  assumes "valid_key_pair pf priv pub" and "64 \<le> max_arguments pf"
  shows "(senderA @ '':'' @ contentA = senderB @ '':'' @ contentB \<longrightarrow>
          (\<exists>pl. createSignedPayload pf senderA contentA ty priv pub rnd = Inr pl
             \<and> (\<exists>m. verifyPayload pf (pl\<lparr>p_sender := senderB, p_content := contentB\<rparr>) mid ts = Inr m
                    \<and> m_verified m \<and> m_sender m = senderB \<and> m_content m = contentB)))
     \<and> (''a:b'', ''c'') \<noteq> (''a'', ''b:c'')
     \<and> (\<exists>pl. createSignedPayload pf ''a:b'' ''c'' ty priv pub rnd = Inr pl
           \<and> (\<exists>m. verifyPayload pf (pl\<lparr>p_sender := ''a'', p_content := ''b:c''\<rparr>) mid ts = Inr m
                  \<and> m_verified m \<and> m_sender m = ''a'' \<and> m_content m = ''b:c''))"
proof -
  have e: "''a:b'' @ '':'' @ ''c'' = ''a'' @ '':'' @ ''b:c''" by simp
  show ?thesis
    using signed_payload_verifies[OF assms, where sender = senderA and content = contentA
        and sender' = senderB and content' = contentB and ty = ty and rnd = rnd and mid = mid and ts = ts]
      signed_payload_verifies[OF assms e, where ty = ty and rnd = rnd and mid = mid and ts = ts]
    by simp
qed

text \<open>
  Claim C10 on the sample platform, whose signatures have 64 bytes.
\<close>

theorem signed_string_ambiguity_witness:
  "valid_key_pair sample_platform sample_identity_key sample_identity_key
   \<and> 64 \<le> max_arguments sample_platform
   \<and> (''a:b'', ''c'') \<noteq> (''a'', ''b:c'')
   \<and> ''a:b'' @ '':'' @ ''c'' = ''a'' @ '':'' @ ''b:c''
   \<and> (\<exists>pl. createSignedPayload sample_platform ''a:b'' ''c'' Text
               sample_identity_key sample_identity_key [] = Inr pl
         \<and> (\<exists>m. verifyPayload sample_platform (pl\<lparr>p_sender := ''a'', p_content := ''b:c''\<rparr>) ''m1'' 5
                  = Inr m \<and> m_verified m \<and> m_sender m = ''a'' \<and> m_content m = ''b:c''))"
proof -
  have ma: "64 \<le> max_arguments sample_platform" by (simp add: sample_platform_def)
  show ?thesis
    using signed_string_ambiguity[OF sample_valid_key_pair ma, where senderA = "''a:b''"
        and contentA = "''c''" and senderB = "''a''" and contentB = "''b:c''" and ty = Text
        and rnd = "[]" and mid = "''m1''" and ts = 5]
      sample_valid_key_pair ma
    by simp
qed

subsection \<open>Claims about room links\<close>

text \<open>
  Claim C8 says that \<open>parseUrl (buildUrl origin roomId key)\<close> gives \<open>roomId\<close> and \<open>key\<close>
  back for every origin and every non-empty key. It does not: \<open>buildUrl\<close> only
  concatenates, and \<open>parseUrl\<close> reads the link through the \<open>URL\<close> parser. With the origin
  \<open>fogchan.example\<close>, which has no scheme, the parser rejects the link and \<open>parseUrl\<close>
  returns \<open>null\<close>; with the key \<open>a b\<close> the fragment is percent-encoded and the key comes
  back as \<open>a%20b\<close>.
\<close>

theorem link_round_trip_counterexample:
  "parseUrl (URL_new sample_after_scheme) (buildUrl ''fogchan.example'' sample_roomId ''k-_9'') = None
   \<and> parseUrl (URL_new sample_after_scheme) (buildUrl ''https://fogchan.example'' sample_roomId ''a b'')
     = Some \<lparr>c_roomId = sample_roomId, c_secretKey = ''a%20b''\<rparr>"
  by code_simp

text \<open>
  Claim C8 as amended. Round trip: for every origin without \<open>#\<close> such that the \<open>URL\<close>
  parser accepts the origin followed by \<open>/\<close>, every room id of 32 lowercase hex
  characters and every non-empty key made of characters that a fragment keeps as they
  are (printable ASCII other than space, \<open>"\<close>, \<open><\<close>, \<open>>\<close> and backquote, so every
  URL-safe base64 key), \<open>parseUrl (buildUrl origin roomId key)\<close> is \<open>{roomId, secretKey:
  key}\<close>. No match: \<open>parseUrl\<close> returns \<open>null\<close> when the \<open>URL\<close> parser rejects the link,
  when the link has no fragment, and, for a link whose path holds no \<open>/chat/\<close> followed
  by 32 hex characters, when the fragment is \<open>#/chat/{id}/{key}\<close> with an id that is
  not 32 lowercase hex characters or when it is \<open>#/chat/{roomId}\<close> or
  \<open>#/chat/{roomId}/\<close> with no key. \<open>parseUrl\<close> never throws: its result is a value in
  every case.
\<close>

theorem link_round_trip:
  "(URL_new P (origin @ ''/'') = Inr u0 \<and> CHR ''#'' \<notin> set origin
      \<and> length rid = 32 \<and> list_all is_lower_hex rid
      \<and> key \<noteq> [] \<and> list_all fragment_safe key
      \<longrightarrow> parseUrl (URL_new P) (buildUrl origin rid key) = Some \<lparr>c_roomId = rid, c_secretKey = key\<rparr>)
   \<and> (URL_ctor link = Inr u \<and> u_hash u = ''#/chat/'' @ bad @ ''/'' @ key'
      \<and> CHR ''/'' \<notin> set bad \<and> \<not> (length bad = 32 \<and> list_all is_lower_hex bad)
      \<and> match_path (u_pathname u) = None
      \<longrightarrow> parseUrl URL_ctor link = None)
   \<and> (URL_ctor link = Inr u \<and> (u_hash u = ''#/chat/'' @ rid \<or> u_hash u = ''#/chat/'' @ rid @ ''/'')
      \<and> length rid = 32 \<and> list_all is_lower_hex rid \<and> match_path (u_pathname u) = None
      \<longrightarrow> parseUrl URL_ctor link = None)
   \<and> (URL_ctor link = Inr u \<and> u_hash u = [] \<longrightarrow> parseUrl URL_ctor link = None)
   \<and> (URL_ctor link = Inl e \<longrightarrow> parseUrl URL_ctor link = None)"
proof -
  have 1: "URL_new P (origin @ ''/'') = Inr u0 \<and> CHR ''#'' \<notin> set origin
      \<and> length rid = 32 \<and> list_all is_lower_hex rid
      \<and> key \<noteq> [] \<and> list_all fragment_safe key
      \<longrightarrow> parseUrl (URL_new P) (buildUrl origin rid key) = Some \<lparr>c_roomId = rid, c_secretKey = key\<rparr>"
    using parseUrl_buildUrl by blast
  have 2: "URL_ctor link = Inr u \<and> u_hash u = ''#/chat/'' @ bad @ ''/'' @ key'
      \<and> CHR ''/'' \<notin> set bad \<and> \<not> (length bad = 32 \<and> list_all is_lower_hex bad)
      \<and> match_path (u_pathname u) = None
      \<longrightarrow> parseUrl URL_ctor link = None"
    using parseUrl_no_match[of URL_ctor link u] match_hash_bad_roomId[of bad key'] by metis
  have 3: "URL_ctor link = Inr u \<and> (u_hash u = ''#/chat/'' @ rid \<or> u_hash u = ''#/chat/'' @ rid @ ''/'')
      \<and> length rid = 32 \<and> list_all is_lower_hex rid \<and> match_path (u_pathname u) = None
      \<longrightarrow> parseUrl URL_ctor link = None"
    using parseUrl_no_match[of URL_ctor link u] match_hash_no_key[of rid] by metis
  have 4: "URL_ctor link = Inr u \<and> u_hash u = [] \<longrightarrow> parseUrl URL_ctor link = None"
    using parseUrl_no_hash by blast
  have 5: "URL_ctor link = Inl e \<longrightarrow> parseUrl URL_ctor link = None"
    using parseUrl_invalid by blast
  show ?thesis by (intro conjI 1 2 3 4 5)
qed

text \<open>
  Claim C8 as amended, on links of \<open>https://fogchan.example\<close>: a well-formed link, a
  short room id, a missing key, a link of the old format without a key, and a link the
  \<open>URL\<close> parser rejects.
\<close>

theorem link_round_trip_witness:
  "URL_new sample_after_scheme (''https://fogchan.example'' @ ''/'') = Inr \<lparr>u_pathname = ''/'', u_hash = []\<rparr>
   \<and> CHR ''#'' \<notin> set ''https://fogchan.example''
   \<and> length sample_roomId = 32 \<and> list_all is_lower_hex sample_roomId
   \<and> list_all fragment_safe ''k-_9''
   \<and> parseUrl (URL_new sample_after_scheme) (buildUrl ''https://fogchan.example'' sample_roomId ''k-_9'')
       = Some \<lparr>c_roomId = sample_roomId, c_secretKey = ''k-_9''\<rparr>
   \<and> URL_new sample_after_scheme ''https://fogchan.example/#/chat/abc/k''
       = Inr \<lparr>u_pathname = ''/'', u_hash = ''#/chat/'' @ ''abc'' @ ''/'' @ ''k''\<rparr>
   \<and> parseUrl (URL_new sample_after_scheme) ''https://fogchan.example/#/chat/abc/k'' = None
   \<and> URL_new sample_after_scheme ''https://fogchan.example/#/chat/0123456789abcdef0123456789abcdef/''
       = Inr \<lparr>u_pathname = ''/'', u_hash = ''#/chat/'' @ sample_roomId @ ''/''\<rparr>
   \<and> parseUrl (URL_new sample_after_scheme)
         ''https://fogchan.example/#/chat/0123456789abcdef0123456789abcdef/'' = None
   \<and> URL_new sample_after_scheme ''https://fogchan.example/chat/0123456789abcdef0123456789abcdef''
       = Inr \<lparr>u_pathname = ''/chat/0123456789abcdef0123456789abcdef'', u_hash = []\<rparr>
   \<and> parseUrl (URL_new sample_after_scheme)
         ''https://fogchan.example/chat/0123456789abcdef0123456789abcdef'' = None
   \<and> URL_new sample_after_scheme ''fogchan.example/#/chat/0123456789abcdef0123456789abcdef/k''
       = Inl TypeError
   \<and> parseUrl (URL_new sample_after_scheme)
         ''fogchan.example/#/chat/0123456789abcdef0123456789abcdef/k'' = None"
proof -
  let ?U = "URL_new sample_after_scheme"
  have a1: "?U (''https://fogchan.example'' @ ''/'') = Inr \<lparr>u_pathname = ''/'', u_hash = []\<rparr>"
    by code_simp
  have a2: "CHR ''#'' \<notin> set ''https://fogchan.example''" by simp
  have a3: "length sample_roomId = 32" "list_all is_lower_hex sample_roomId"
    by (simp_all add: sample_roomId_def is_lower_hex_def hex_digits_def)
  have a4: "''k-_9'' \<noteq> []" "list_all fragment_safe ''k-_9''"
    by (simp_all add: fragment_safe_def in_fragment_encode_set_def)
  have A: "parseUrl ?U (buildUrl ''https://fogchan.example'' sample_roomId ''k-_9'')
       = Some \<lparr>c_roomId = sample_roomId, c_secretKey = ''k-_9''\<rparr>"
    using link_round_trip[where P = sample_after_scheme and origin = "''https://fogchan.example''"
        and ?u0.0 = "\<lparr>u_pathname = ''/'', u_hash = []\<rparr>" and rid = sample_roomId and key = "''k-_9''"]
      a1 a2 a3 a4 by blast
  have b1: "?U ''https://fogchan.example/#/chat/abc/k''
       = Inr \<lparr>u_pathname = ''/'', u_hash = ''#/chat/'' @ ''abc'' @ ''/'' @ ''k''\<rparr>"
    by code_simp
  have b2: "CHR ''/'' \<notin> set ''abc''" "\<not> (length ''abc'' = 32 \<and> list_all is_lower_hex ''abc'')"
    "match_path ''/'' = None"
    by simp_all
  have B: "parseUrl ?U ''https://fogchan.example/#/chat/abc/k'' = None"
    using link_round_trip[where URL_ctor = ?U and link = "''https://fogchan.example/#/chat/abc/k''"
        and u = "\<lparr>u_pathname = ''/'', u_hash = ''#/chat/'' @ ''abc'' @ ''/'' @ ''k''\<rparr>"
        and bad = "''abc''" and key' = "''k''"]
      b1 b2 by simp
  have c1: "?U ''https://fogchan.example/#/chat/0123456789abcdef0123456789abcdef/''
       = Inr \<lparr>u_pathname = ''/'', u_hash = ''#/chat/'' @ sample_roomId @ ''/''\<rparr>"
    by code_simp
  have C: "parseUrl ?U ''https://fogchan.example/#/chat/0123456789abcdef0123456789abcdef/'' = None"
    using link_round_trip[where URL_ctor = ?U
        and link = "''https://fogchan.example/#/chat/0123456789abcdef0123456789abcdef/''"
        and u = "\<lparr>u_pathname = ''/'', u_hash = ''#/chat/'' @ sample_roomId @ ''/''\<rparr>"
        and rid = sample_roomId]
      c1 a3 b2(3) by simp
  have d1: "?U ''https://fogchan.example/chat/0123456789abcdef0123456789abcdef''
       = Inr \<lparr>u_pathname = ''/chat/0123456789abcdef0123456789abcdef'', u_hash = []\<rparr>"
    by code_simp
  have D: "parseUrl ?U ''https://fogchan.example/chat/0123456789abcdef0123456789abcdef'' = None"
    using link_round_trip[where URL_ctor = ?U
        and link = "''https://fogchan.example/chat/0123456789abcdef0123456789abcdef''"
        and u = "\<lparr>u_pathname = ''/chat/0123456789abcdef0123456789abcdef'', u_hash = []\<rparr>"]
      d1 by simp
  have e1: "?U ''fogchan.example/#/chat/0123456789abcdef0123456789abcdef/k'' = Inl TypeError"
    by code_simp
  have E: "parseUrl ?U ''fogchan.example/#/chat/0123456789abcdef0123456789abcdef/k'' = None"
    using link_round_trip[where URL_ctor = ?U
        and link = "''fogchan.example/#/chat/0123456789abcdef0123456789abcdef/k''"
        and e = TypeError]
      e1 by simp
  show ?thesis
    by (intro conjI a1 a2 a3 a4(2) A b1 B c1 C d1 D e1 E)
qed

end
